theory Spec2Isabelle
  imports Complex_Main
begin

section \<open>JavaScript values used by the secure-finality tools\<close>

text \<open>
  A JavaScript number is a finite double or one of NaN, +Infinity, -Infinity. The code
  only tests numbers with \<^verbatim>\<open>Number.isFinite\<close>, \<^verbatim>\<open>>=\<close> and \<^verbatim>\<open>>\<close>, which are exact on
  doubles, so a finite number is represented by its exact value.
\<close>

datatype jsnum = Finite real | NaN | PosInf | NegInf

fun isFinite :: "jsnum \<Rightarrow> bool" where
  "isFinite (Finite _) = True"
| "isFinite _ = False"

text \<open>\<^verbatim>\<open>a >= b\<close>: false as soon as one side is NaN.\<close>

fun js_ge :: "jsnum \<Rightarrow> jsnum \<Rightarrow> bool" where
  "js_ge NaN _ = False"
| "js_ge _ NaN = False"
| "js_ge PosInf _ = True"
| "js_ge _ NegInf = True"
| "js_ge (Finite a) (Finite b) = (b \<le> a)"
| "js_ge (Finite _) PosInf = False"
| "js_ge NegInf _ = False"

text \<open>\<^verbatim>\<open>a > b\<close>.\<close>

fun js_gt :: "jsnum \<Rightarrow> jsnum \<Rightarrow> bool" where
  "js_gt NaN _ = False"
| "js_gt _ NaN = False"
| "js_gt PosInf PosInf = False"
| "js_gt PosInf _ = True"
| "js_gt NegInf _ = False"
| "js_gt (Finite a) (Finite b) = (b < a)"
| "js_gt (Finite _) PosInf = False"
| "js_gt (Finite _) NegInf = True"

datatype js_error = ReferenceError | Error string

text \<open>
  A value handed over by the \<^verbatim>\<open>secureUpTo\<close> storage entry. The code converts it with
  \<^verbatim>\<open>upTo?.toNumber ? upTo.toNumber() : Number(upTo)\<close>: the record says whether the value
  has a truthy \<^verbatim>\<open>toNumber\<close>, what that method returns or throws (a codec number beyond 53
  bits throws), and what \<^verbatim>\<open>Number(upTo)\<close> returns.
\<close>

record upTo_value =
  has_toNumber :: bool
  toNumber :: "js_error + jsnum"
  Number_of :: jsnum

definition n_of :: "upTo_value \<Rightarrow> js_error + jsnum" where
  "n_of upTo = (if has_toNumber upTo then toNumber upTo else Inr (Number_of upTo))"

section \<open>waitForSecureUpTo\<close>

text \<open>
  \<^verbatim>\<open>waitForSecureUpTo(palletAnchor, targetBlock)\<close> returns a promise and nothing else. Its
  executor subscribes with \<^verbatim>\<open>palletAnchor.secureUpTo(callback)\<close> and binds the constant
  \<^verbatim>\<open>unsub\<close> when that call's promise is fulfilled. The state of one wait: the target, the
  state of the returned promise, how far the awaited subscription call has got (\<^verbatim>\<open>unsub\<close>
  is bound exactly when it has been fulfilled), how often \<^verbatim>\<open>unsub()\<close> was called, and the
  rejections of the asynchronous notification callback (which nobody handles).
\<close>

datatype promise_state = Pending | Fulfilled | Rejected js_error

datatype subscription_state = Requested | Established | Failed

record waiter =
  targetBlock :: jsnum
  outcome :: promise_state
  subscription :: subscription_state
  unsub_calls :: nat
  unhandled :: "js_error list"

text \<open>\<^verbatim>\<open>resolve()\<close> and \<^verbatim>\<open>reject(e)\<close> settle a pending promise and do nothing to a settled one.\<close>

definition resolve :: "waiter \<Rightarrow> waiter" where
  "resolve w = (if outcome w = Pending then w\<lparr>outcome := Fulfilled\<rparr> else w)"

definition reject :: "js_error \<Rightarrow> waiter \<Rightarrow> waiter" where
  "reject e w = (if outcome w = Pending then w\<lparr>outcome := Rejected e\<rparr> else w)"

text \<open>The wait right after the call: the subscription has been requested, nothing has answered.\<close>

definition waitForSecureUpTo :: "jsnum \<Rightarrow> waiter" where
  "waitForSecureUpTo target =
     \<lparr>targetBlock = target, outcome = Pending, subscription = Requested, unsub_calls = 0,
      unhandled = []\<rparr>"

text \<open>
  What can happen to a wait afterwards: the subscription call is fulfilled (binding
  \<^verbatim>\<open>unsub\<close>), the subscription call throws or is rejected (the \<^verbatim>\<open>catch\<close> branch), or the
  subscription delivers a value to the callback. There is no other entry point. The
  awaited call settles once: a second answer to it changes nothing.
\<close>

datatype wait_event = Subscribed | SubscribeFailed js_error | Notification upTo_value

text \<open>
  The notification callback: the conversion, then
  \<^verbatim>\<open>if (Number.isFinite(n) && n >= targetBlock) { unsub(); resolve(); }\<close>. A conversion that
  throws rejects the callback and nothing else happens. Reading \<^verbatim>\<open>unsub\<close> before its
  \<^verbatim>\<open>const\<close> is initialised throws a ReferenceError inside the callback, before
  \<^verbatim>\<open>resolve()\<close> is reached.
\<close>

definition on_upTo :: "waiter \<Rightarrow> upTo_value \<Rightarrow> waiter" where
  "on_upTo w upTo =
     (case n_of upTo of
        Inl e \<Rightarrow> w\<lparr>unhandled := unhandled w @ [e]\<rparr>
      | Inr n \<Rightarrow>
          if isFinite n \<and> js_ge n (targetBlock w) then
            (if subscription w = Established then resolve (w\<lparr>unsub_calls := unsub_calls w + 1\<rparr>)
             else w\<lparr>unhandled := unhandled w @ [ReferenceError]\<rparr>)
          else w)"

fun on_wait_event :: "waiter \<Rightarrow> wait_event \<Rightarrow> waiter" where
  "on_wait_event w Subscribed =
     (if subscription w = Requested then w\<lparr>subscription := Established\<rparr> else w)"
| "on_wait_event w (SubscribeFailed e) =
     (if subscription w = Requested then reject e (w\<lparr>subscription := Failed\<rparr>) else w)"
| "on_wait_event w (Notification upTo) = on_upTo w upTo"

definition wait_run :: "jsnum \<Rightarrow> wait_event list \<Rightarrow> waiter" where
  "wait_run target evs = foldl on_wait_event (waitForSecureUpTo target) evs"

text \<open>A block number as the chain's codec delivers it: an object whose \<^verbatim>\<open>toNumber()\<close> gives \<open>r\<close>.\<close>

definition codec :: "real \<Rightarrow> upTo_value" where
  "codec r = \<lparr>has_toNumber = True, toNumber = Inr (Finite r), Number_of = NaN\<rparr>"

section \<open>Transaction status updates\<close>

text \<open>
  What \<^verbatim>\<open>signAndSend\<close> hands to its status callback: the extrinsic status (the code asks
  \<^verbatim>\<open>isReady\<close>, \<^verbatim>\<open>isBroadcast\<close>, \<^verbatim>\<open>isInBlock\<close>, \<^verbatim>\<open>isFinalized\<close>; every other status is
  \<open>IsOther\<close>), the events of the extrinsic (possibly undefined) and the dispatch error
  (possibly undefined). A block hash is kept as its hex text.
\<close>

type_synonym hash = string

datatype tx_status = IsReady | IsBroadcast | IsInBlock hash | IsFinalized hash | IsOther

record event_record =
  event_section :: string
  event_method :: string

type_synonym module_error = "nat \<times> nat"

datatype dispatch_error = ModuleError module_error | OtherDispatchError string

record meta_error =
  meta_section :: string
  meta_name :: string
  meta_docs :: "string list"

record submittable_result =
  status :: tx_status
  events :: "event_record list option"
  dispatchError :: "dispatch_error option"

text \<open>
  \<^verbatim>\<open>(result.events || []).some(({ event }) => event.section === "system" && event.method === "ExtrinsicFailed")\<close>;
  the scripts write \<^verbatim>\<open>events?.some(...)\<close>, which is falsy for undefined events as well.
\<close>

definition failed :: "submittable_result \<Rightarrow> bool" where
  "failed r =
     list_ex (\<lambda>ev. event_section ev = ''system'' \<and> event_method ev = ''ExtrinsicFailed'')
       (case events r of None \<Rightarrow> [] | Some evs \<Rightarrow> evs)"

text \<open>\<^verbatim>\<open>docs.join(" ")\<close>.\<close>

fun join_space :: "string list \<Rightarrow> string" where
  "join_space [] = []"
| "join_space [d] = d"
| "join_space (d # ds) = d @ '' '' @ join_space ds"

text \<open>
  The text the scripts print for a failed extrinsic, after the leading cross mark: for a
  module error \<^verbatim>\<open>DispatchError: ${section}.${name} - ${docs.join(" ")}\<close> from
  \<^verbatim>\<open>api.registry.findMetaError\<close>, otherwise \<^verbatim>\<open>DispatchError: ${dispatchError?.toString()}\<close>.
  The registry lookup is a parameter, taken to return an entry for every module error.
\<close>

definition dispatch_error_text :: "(module_error \<Rightarrow> meta_error) \<Rightarrow> dispatch_error option \<Rightarrow> string" where
  "dispatch_error_text findMetaError de =
     (case de of
        Some (ModuleError m) \<Rightarrow>
          (let meta = findMetaError m in
           ''DispatchError: '' @ meta_section meta @ ''.'' @ meta_name meta @ '' - '' @
             join_space (meta_docs meta))
      | Some (OtherDispatchError s) \<Rightarrow> ''DispatchError: '' @ s
      | None \<Rightarrow> ''DispatchError: undefined'')"

section \<open>The watermark advancer (advance-secure-up-to)\<close>

datatype log_line =
    Info string
  | Failure string
  | TickLine jsnum jsnum bool
  | Advancing jsnum jsnum
  | DryWould jsnum
  | NowAt jsnum
  | LoopError js_error

text \<open>
  What one run of the loop does, in order: the concurrent read of both heights, the
  submission of \<^verbatim>\<open>sudo.sudo(noteAnchorVerified(target))\<close>, the settling of the promise of
  \<^verbatim>\<open>sendSudoAdvance\<close> (resolved or rejected), the read after the advance, console output,
  and the sleeps (\<^verbatim>\<open>sleep(200)\<close>, \<^verbatim>\<open>sleep(1000)\<close>, and \<^verbatim>\<open>sleep(INTERVAL_SEC * 1000)\<close>).
\<close>

datatype action =
    ReadHeights
  | SudoAdvance jsnum
  | AdvanceSettled bool
  | ReadAfter
  | Log log_line
  | Sleep nat
  | SleepInterval

text \<open>
  The status callback of \<^verbatim>\<open>sendSudoAdvance\<close> over the results the subscription delivers.
  Both branches under \<^verbatim>\<open>isFinalized\<close> call \<^verbatim>\<open>unsub()\<close>, which ends the delivery, and settle
  the promise; until then the promise stays pending.
\<close>

fun sudo_results :: "(module_error \<Rightarrow> meta_error) \<Rightarrow> submittable_result list \<Rightarrow> log_line list \<times> promise_state" where
  "sudo_results findMetaError [] = ([], Pending)"
| "sudo_results findMetaError (r # rs) =
     (case status r of
        IsReady \<Rightarrow>
          (case sudo_results findMetaError rs of (ls, p) \<Rightarrow> (Info ''[sudo] Ready'' # ls, p))
      | IsBroadcast \<Rightarrow>
          (case sudo_results findMetaError rs of (ls, p) \<Rightarrow> (Info ''[sudo] Broadcast'' # ls, p))
      | IsInBlock h \<Rightarrow>
          (case sudo_results findMetaError rs of (ls, p) \<Rightarrow> (Info (''[sudo] InBlock '' @ h) # ls, p))
      | IsFinalized h \<Rightarrow>
          (if failed r then
             ([Info (''[sudo] Finalized '' @ h),
               Failure (dispatch_error_text findMetaError (dispatchError r))],
              Rejected (Error ''sudo extrinsic failed''))
           else ([Info (''[sudo] Finalized '' @ h)], Fulfilled))
      | IsOther \<Rightarrow> sudo_results findMetaError rs)"

text \<open>
  \<^verbatim>\<open>sendSudoAdvance\<close>: the \<^verbatim>\<open>signAndSend\<close> call either throws (the \<^verbatim>\<open>catch\<close> rejects with
  that error) or establishes the subscription that delivers the results.
\<close>

definition sendSudoAdvance :: "(module_error \<Rightarrow> meta_error) \<Rightarrow> js_error + submittable_result list \<Rightarrow> log_line list \<times> promise_state" where
  "sendSudoAdvance findMetaError stream =
     (case stream of
        Inl e \<Rightarrow> ([], Rejected e)
      | Inr rs \<Rightarrow> sudo_results findMetaError rs)"

record config =
  DRY_RUN :: bool
  registry :: "module_error \<Rightarrow> meta_error"

text \<open>The two module-level flags of the script.\<close>

record loop_state =
  inFlight :: bool
  stop :: bool

text \<open>
  What the outside world answers during one run of the loop body: the two reads (each
  may fail), the status stream of the sudo extrinsic, the read after the advance, and
  whether SIGINT arrives (its handler sets \<^verbatim>\<open>stop\<close>).
\<close>

record tick_env =
  finalized_read :: "js_error + jsnum"
  watermark_read :: "js_error + upTo_value"
  watermark_fails_first :: bool
  sudo_stream :: "js_error + submittable_result list"
  after_read :: "js_error + upTo_value"
  sigint :: bool

text \<open>
  \<^verbatim>\<open>getSecureUpTo\<close>: the storage read, then the same conversion as in the wait; a failed
  read and a conversion that throws both reject its promise.
\<close>

definition getSecureUpTo :: "js_error + upTo_value \<Rightarrow> js_error + jsnum" where
  "getSecureUpTo read = (case read of Inl e \<Rightarrow> Inl e | Inr up \<Rightarrow> n_of up)"

text \<open>
  \<^verbatim>\<open>await Promise.all([a, b])\<close>: both values, or the error of the promise that is rejected
  first; when both are rejected, the flag says whether the second one was first.
\<close>

definition Promise_all2 :: "bool \<Rightarrow> js_error + 'a \<Rightarrow> js_error + 'b \<Rightarrow> js_error + ('a \<times> 'b)" where
  "Promise_all2 second_first a b =
     (case a of
        Inl e \<Rightarrow> (case b of Inl e' \<Rightarrow> Inl (if second_first then e' else e) | Inr y \<Rightarrow> Inl e)
      | Inr x \<Rightarrow> (case b of Inl e \<Rightarrow> Inl e | Inr y \<Rightarrow> Inr (x, y)))"

text \<open>How the \<^verbatim>\<open>try\<close> block ends: normally, by \<^verbatim>\<open>continue\<close>, by a throw, or never.\<close>

datatype try_end = Normal | Continue | Threw js_error | Never

definition try_block :: "config \<Rightarrow> loop_state \<Rightarrow> tick_env \<Rightarrow> action list \<times> try_end \<times> loop_state" where
  "try_block cfg st env =
     (if inFlight st then ([Sleep 200], Continue, st)
      else
        (let st1 = st\<lparr>inFlight := True\<rparr> in
         case Promise_all2 (watermark_fails_first env) (finalized_read env)
                (getSecureUpTo (watermark_read env)) of
           Inl e \<Rightarrow> ([ReadHeights], Threw e, st1)
         | Inr (finalized, currentUp) \<Rightarrow>
             (let need = js_gt finalized currentUp;
                  head = [ReadHeights, Log (TickLine finalized currentUp need)]
              in
              if need then
                (if DRY_RUN cfg then
                   (head @ [Log (Advancing currentUp finalized), Log (DryWould finalized)],
                    Normal, st1)
                 else
                   (case sendSudoAdvance (registry cfg) (sudo_stream env) of
                      (ls, Pending) \<Rightarrow>
                        (head @ [Log (Advancing currentUp finalized), SudoAdvance finalized] @
                           map Log ls,
                         Never, st1)
                    | (ls, Rejected e) \<Rightarrow>
                        (head @ [Log (Advancing currentUp finalized), SudoAdvance finalized] @
                           map Log ls @ [AdvanceSettled False],
                         Threw e, st1)
                    | (ls, Fulfilled) \<Rightarrow>
                        (case getSecureUpTo (after_read env) of
                           Inl e \<Rightarrow>
                             (head @ [Log (Advancing currentUp finalized), SudoAdvance finalized] @
                                map Log ls @ [AdvanceSettled True, ReadAfter],
                              Threw e, st1)
                         | Inr after \<Rightarrow>
                             (head @ [Log (Advancing currentUp finalized), SudoAdvance finalized] @
                                map Log ls @
                                [AdvanceSettled True, ReadAfter, Log (NowAt after)],
                              Normal, st1))))
              else (head, Normal, st1))))"

text \<open>
  One run of the loop body with its \<^verbatim>\<open>catch\<close> and \<^verbatim>\<open>finally\<close>: a throw is logged and
  followed by \<^verbatim>\<open>sleep(1000)\<close>; in every case \<^verbatim>\<open>finally\<close> clears \<^verbatim>\<open>inFlight\<close> and sleeps the
  interval. The result is \<open>None\<close> when the body never finishes.
\<close>

definition tick :: "config \<Rightarrow> loop_state \<Rightarrow> tick_env \<Rightarrow> action list \<times> loop_state option" where
  "tick cfg st env =
     (case try_block cfg st env of
        (tr, Never, st1) \<Rightarrow> (tr, None)
      | (tr, Threw e, st1) \<Rightarrow>
          (tr @ [Log (LoopError e), Sleep 1000, SleepInterval],
           Some (st1\<lparr>inFlight := False, stop := stop st1 \<or> sigint env\<rparr>))
      | (tr, _, st1) \<Rightarrow>
          (tr @ [SleepInterval],
           Some (st1\<lparr>inFlight := False, stop := stop st1 \<or> sigint env\<rparr>)))"

text \<open>
  \<^verbatim>\<open>while (!stop) { ... }\<close> over the answers of the outside world, one per run of the body.
  The loop has exited (\<open>Exited\<close>), is stuck in a body that never finishes (\<open>Blocked\<close>; the
  SIGINT handler then ends the process), or is still running when the answers are used up.
\<close>

datatype loop_end = Exited | Blocked | Running loop_state

fun main_loop :: "config \<Rightarrow> loop_state \<Rightarrow> tick_env list \<Rightarrow> action list \<times> loop_end" where
  "main_loop cfg st [] = ([], if stop st then Exited else Running st)"
| "main_loop cfg st (env # envs) =
     (if stop st then ([], Exited)
      else
        (case tick cfg st env of
           (tr, None) \<Rightarrow> (tr, if sigint env then Exited else Blocked)
         | (tr, Some st') \<Rightarrow>
             (case main_loop cfg st' envs of (tr', e) \<Rightarrow> (tr @ tr', e))))"

text \<open>The targets of the privileged calls in a trace, and the number of calls not yet settled.\<close>

fun calls_of :: "action list \<Rightarrow> jsnum list" where
  "calls_of [] = []"
| "calls_of (SudoAdvance t # as) = t # calls_of as"
| "calls_of (_ # as) = calls_of as"

fun delta :: "action \<Rightarrow> int" where
  "delta (SudoAdvance _) = 1"
| "delta (AdvanceSettled _) = - 1"
| "delta _ = 0"

definition outstanding :: "action list \<Rightarrow> int" where
  "outstanding tr = sum_list (map delta tr)"

text \<open>
  The chain of Scenario A: at each tick the finalized height is the next sample, both
  reads succeed, the sudo extrinsic goes through Ready, InBlock and Finalized without a
  failure event, and a finalized \<^verbatim>\<open>noteAnchorVerified(target)\<close> leaves the watermark at its
  target. The loop itself is the code's.
\<close>

definition ok_stream :: "submittable_result list" where
  "ok_stream =
     [\<lparr>status = IsReady, events = None, dispatchError = None\<rparr>,
      \<lparr>status = IsInBlock ''0xaa'', events = Some [], dispatchError = None\<rparr>,
      \<lparr>status = IsFinalized ''0xaa'',
       events = Some [\<lparr>event_section = ''sudo'', event_method = ''Sudid''\<rparr>,
                      \<lparr>event_section = ''system'', event_method = ''ExtrinsicSuccess''\<rparr>],
       dispatchError = None\<rparr>]"

definition chain_env :: "real \<Rightarrow> real \<Rightarrow> tick_env" where
  "chain_env finalized watermark =
     \<lparr>finalized_read = Inr (Finite finalized), watermark_read = Inr (codec watermark),
      watermark_fails_first = False, sudo_stream = Inr ok_stream, after_read = Inr (codec finalized), sigint = False\<rparr>"

fun run_on_chain :: "config \<Rightarrow> loop_state \<Rightarrow> real \<Rightarrow> real list \<Rightarrow> action list" where
  "run_on_chain cfg st watermark [] = []"
| "run_on_chain cfg st watermark (f # fs) =
     (if stop st then []
      else
        (case tick cfg st (chain_env f watermark) of
           (tr, None) \<Rightarrow> tr
         | (tr, Some st') \<Rightarrow>
             tr @ run_on_chain cfg st' (if AdvanceSettled True \<in> set tr then f else watermark) fs))"

definition no_registry :: "module_error \<Rightarrow> meta_error" where
  "no_registry m = \<lparr>meta_section = ''unknown'', meta_name = ''Unknown'', meta_docs = []\<rparr>"

definition live :: config where
  "live = \<lparr>DRY_RUN = False, registry = no_registry\<rparr>"

definition idle :: loop_state where
  "idle = \<lparr>inFlight = False, stop = False\<rparr>"

text \<open>
  The in-flight automaton over a trace: a privileged call may be submitted only while none
  is in flight, and only a call in flight can settle. The result is the flag at the end of
  the trace, or \<open>None\<close> when the trace breaks the discipline.
\<close>

fun flight :: "bool \<Rightarrow> action list \<Rightarrow> bool option" where
  "flight b [] = Some b"
| "flight b (SudoAdvance _ # as) = (if b then None else flight True as)"
| "flight b (AdvanceSettled _ # as) = (if b then flight False as else None)"
| "flight b (_ # as) = flight b as"

definition is_finalized :: "submittable_result \<Rightarrow> bool" where
  "is_finalized r = (case status r of IsFinalized _ \<Rightarrow> True | _ \<Rightarrow> False)"

text \<open>
  A sudo extrinsic that is finalized with a failure event, an environment in which the
  advancement fails that way, one in which the read of the finalized height fails, and
  the loop state of a run that finds \<^verbatim>\<open>inFlight\<close> set.
\<close>

definition failing_stream :: "submittable_result list" where
  "failing_stream =
     [\<lparr>status = IsReady, events = None, dispatchError = None\<rparr>,
      \<lparr>status = IsFinalized ''0xbb'',
       events = Some [\<lparr>event_section = ''system'', event_method = ''ExtrinsicFailed''\<rparr>],
       dispatchError = Some (OtherDispatchError ''BadOrigin'')\<rparr>]"

definition failing_env :: tick_env where
  "failing_env =
     \<lparr>finalized_read = Inr (Finite 11), watermark_read = Inr (codec 10),
      watermark_fails_first = False, sudo_stream = Inr failing_stream, after_read = Inr (codec 10), sigint = False\<rparr>"

definition rpc_down_env :: tick_env where
  "rpc_down_env =
     \<lparr>finalized_read = Inl (Error ''rpc down''), watermark_read = Inr (codec 10),
      watermark_fails_first = False, sudo_stream = Inr [], after_read = Inr (codec 10),
      sigint = False\<rparr>"

definition busy :: loop_state where
  "busy = \<lparr>inFlight = True, stop = False\<rparr>"

section \<open>signAndSendSecure\<close>

text \<open>
  \<^verbatim>\<open>ISecureResult extends ISubmittableResult\<close> with two optional fields. The user callback
  is called with such a value; \<open>None\<close> is a call that returns normally (or whose promise is
  fulfilled), \<open>Some e\<close> one that throws \<open>e\<close>.
\<close>

record ISecureResult = submittable_result +
  isSecureFinalized :: "bool option"
  secureFinalizedAt :: "jsnum option"

type_synonym StatusCb = "ISecureResult \<Rightarrow> js_error option"

text \<open>\<^verbatim>\<open>result as ISecureResult\<close>: the same object, the two fields undefined.\<close>

definition as_secure :: "submittable_result \<Rightarrow> ISecureResult" where
  "as_secure r =
     \<lparr>status = status r, events = events r, dispatchError = dispatchError r,
      isSecureFinalized = None, secureFinalizedAt = None\<rparr>"

text \<open>\<^verbatim>\<open>{ ...result, isSecureFinalized: true, secureFinalizedAt: includedAt }\<close>.\<close>

definition synthetic :: "submittable_result \<Rightarrow> jsnum \<Rightarrow> ISecureResult" where
  "synthetic r includedAt =
     \<lparr>status = status r, events = events r, dispatchError = dispatchError r,
      isSecureFinalized = Some True, secureFinalizedAt = Some includedAt\<rparr>"

text \<open>
  The status callback that \<^verbatim>\<open>signAndSendSecure\<close> passes to \<^verbatim>\<open>signAndSend\<close> is asynchronous:
  one run of it per delivered result, suspended at \<^verbatim>\<open>await api.rpc.chain.getHeader(...)\<close>
  or at \<^verbatim>\<open>await waitForSecureUpTo(...)\<close>, returned, or rejected by a throw.
\<close>

datatype handler =
    AwaitHeader submittable_result
  | AwaitSecure submittable_result jsnum waiter
  | Returned
  | HandlerRejected js_error

text \<open>
  The state of one \<^verbatim>\<open>signAndSendSecure\<close>: the calls of the user callback so far, the runs
  of the status callback in the order of their results, the hashes \<^verbatim>\<open>getHeader\<close> was asked
  for, and the targets \<^verbatim>\<open>waitForSecureUpTo\<close> was called with.
\<close>

record tracker =
  calls :: "ISecureResult list"
  handlers :: "handler list"
  header_requests :: "hash list"
  wait_calls :: "jsnum list"

definition signAndSendSecure :: tracker where
  "signAndSendSecure = \<lparr>calls = [], handlers = [], header_requests = [], wait_calls = []\<rparr>"

text \<open>
  What happens to it: \<^verbatim>\<open>signAndSend\<close> delivers a result; the \<^verbatim>\<open>getHeader\<close> call of run \<open>k\<close>
  answers with an error or with \<^verbatim>\<open>header.number.toNumber()\<close>; something happens to the wait
  of run \<open>k\<close>.
\<close>

datatype tracker_event =
    StatusUpdate submittable_result
  | HeaderReply nat "js_error + jsnum"
  | WaitEvent nat wait_event

text \<open>\<^verbatim>\<open>if (cb) await cb(x)\<close>: the call is recorded; its throw, if any, is handed back.\<close>

fun invoke :: "StatusCb option \<Rightarrow> ISecureResult \<Rightarrow> tracker \<Rightarrow> tracker \<times> js_error option" where
  "invoke None x t = (t, None)"
| "invoke (Some cb) x t = (t\<lparr>calls := calls t @ [x]\<rparr>, cb x)"

text \<open>
  A delivered result: the callback is called with it; then, on a finalized status, a
  failure event ends the run (\<^verbatim>\<open>if (failed) return\<close>), and otherwise the header of the
  finalized block is requested.
\<close>

definition on_status :: "StatusCb option \<Rightarrow> tracker \<Rightarrow> submittable_result \<Rightarrow> tracker" where
  "on_status cb t r =
     (case invoke cb (as_secure r) t of
        (t1, Some e) \<Rightarrow> t1\<lparr>handlers := handlers t1 @ [HandlerRejected e]\<rparr>
      | (t1, None) \<Rightarrow>
          (case status r of
             IsFinalized finalizedHash \<Rightarrow>
               (if failed r then t1\<lparr>handlers := handlers t1 @ [Returned]\<rparr>
                else t1\<lparr>handlers := handlers t1 @ [AwaitHeader r],
                        header_requests := header_requests t1 @ [finalizedHash]\<rparr>)
           | _ \<Rightarrow> t1\<lparr>handlers := handlers t1 @ [Returned]\<rparr>))"

text \<open>
  The header arrives: \<^verbatim>\<open>includedAt = header.number.toNumber()\<close> and the wait is started
  with that target. A failed read rejects the run.
\<close>

definition on_header :: "tracker \<Rightarrow> nat \<Rightarrow> js_error + jsnum \<Rightarrow> tracker" where
  "on_header t k reply =
     (if k < length (handlers t) then
        (case handlers t ! k of
           AwaitHeader r \<Rightarrow>
             (case reply of
                Inl e \<Rightarrow> t\<lparr>handlers := (handlers t)[k := HandlerRejected e]\<rparr>
              | Inr includedAt \<Rightarrow>
                  t\<lparr>handlers := (handlers t)[k := AwaitSecure r includedAt (waitForSecureUpTo includedAt)],
                    wait_calls := wait_calls t @ [includedAt]\<rparr>)
         | _ \<Rightarrow> t)
      else t)"

text \<open>
  Something happens to the wait of a run: while its promise is pending the run stays
  suspended; when it is fulfilled the run goes on to the one synthetic call of the
  callback and returns; when it is rejected the \<^verbatim>\<open>await\<close> throws.
\<close>

definition on_wait :: "StatusCb option \<Rightarrow> tracker \<Rightarrow> nat \<Rightarrow> wait_event \<Rightarrow> tracker" where
  "on_wait cb t k ev =
     (if k < length (handlers t) then
        (case handlers t ! k of
           AwaitSecure r includedAt w \<Rightarrow>
             (let w' = on_wait_event w ev in
              case outcome w' of
                Pending \<Rightarrow> t\<lparr>handlers := (handlers t)[k := AwaitSecure r includedAt w']\<rparr>
              | Fulfilled \<Rightarrow>
                  (case invoke cb (synthetic r includedAt) t of
                     (t1, None) \<Rightarrow> t1\<lparr>handlers := (handlers t1)[k := Returned]\<rparr>
                   | (t1, Some e) \<Rightarrow> t1\<lparr>handlers := (handlers t1)[k := HandlerRejected e]\<rparr>)
              | Rejected e \<Rightarrow> t\<lparr>handlers := (handlers t)[k := HandlerRejected e]\<rparr>)
         | _ \<Rightarrow> t)
      else t)"

fun tracker_step :: "StatusCb option \<Rightarrow> tracker \<Rightarrow> tracker_event \<Rightarrow> tracker" where
  "tracker_step cb t (StatusUpdate r) = on_status cb t r"
| "tracker_step cb t (HeaderReply k reply) = on_header t k reply"
| "tracker_step cb t (WaitEvent k ev) = on_wait cb t k ev"

definition tracker_run :: "StatusCb option \<Rightarrow> tracker_event list \<Rightarrow> tracker" where
  "tracker_run cb evs = foldl (tracker_step cb) signAndSendSecure evs"

text \<open>The synthetic calls among the calls of the callback.\<close>

definition secure_calls :: "ISecureResult list \<Rightarrow> ISecureResult list" where
  "secure_calls cs = filter (\<lambda>c. isSecureFinalized c = Some True) cs"

text \<open>
  A notification satisfies a target when it converts to a finite number that is at least
  the target. The run of one transaction: the earlier status updates \<open>rs\<close>, the finalized
  one, the answer to the header read of its block (an error or the block number), and
  what happens to the wait that is then started.
\<close>

definition satisfies :: "jsnum \<Rightarrow> upTo_value \<Rightarrow> bool" where
  "satisfies target upTo =
     (case n_of upTo of Inl e \<Rightarrow> False | Inr n \<Rightarrow> isFinite n \<and> js_ge n target)"

definition lifecycle :: "submittable_result list \<Rightarrow> submittable_result \<Rightarrow> js_error + jsnum \<Rightarrow> wait_event list \<Rightarrow> tracker_event list" where
  "lifecycle rs fin header wevs =
     map StatusUpdate rs @ [StatusUpdate fin, HeaderReply (length rs) header] @
     map (WaitEvent (length rs)) wevs"

text \<open>A run of the status callback that has ended.\<close>

fun settled :: "handler \<Rightarrow> bool" where
  "settled Returned = True"
| "settled (HandlerRejected _) = True"
| "settled _ = False"

section \<open>The transaction test script (secure-tx-test)\<close>

text \<open>
  What the script prints and does: console lines (the lines that print a number keep the
  number), \<^verbatim>\<open>unsub()\<close>, the header request, its own \<^verbatim>\<open>waitForSecureUpTo(targetBlock)\<close>,
  \<^verbatim>\<open>sleep\<close>, \<^verbatim>\<open>api.disconnect()\<close> and \<^verbatim>\<open>process.exit(code)\<close>.
\<close>

datatype script_log =
    Line string
  | ErrorLine string
  | FinalizedIn jsnum
  | Watching jsnum
  | SecureUpToIs jsnum

datatype script_action =
    Out script_log
  | CallUnsub
  | GetHeader hash
  | WaitForSecureUpTo jsnum
  | SleepFor nat
  | Disconnect
  | Exit nat

text \<open>
  The script's copy of the wait: the same subscription and test as the library's, with a
  line for every converted value and one more, before \<^verbatim>\<open>unsub()\<close>, when the value satisfies
  the target. It is followed until its promise settles.
\<close>

fun script_wait :: "waiter \<Rightarrow> wait_event list \<Rightarrow> script_action list \<times> waiter" where
  "script_wait w [] = ([], w)"
| "script_wait w (ev # evs) =
     (let out =
        (case ev of
           Notification upTo \<Rightarrow>
             (case n_of upTo of
                Inl e \<Rightarrow> []
              | Inr n \<Rightarrow>
                  Out (SecureUpToIs n) #
                  (if isFinite n \<and> js_ge n (targetBlock w)
                   then [Out (Line (CHR 0x0A # ''Status of transfer: Secure finalized''))]
                   else []))
         | _ \<Rightarrow> []);
          w' = on_wait_event w ev
      in if outcome w' = Pending
         then (case script_wait w' evs of (as, w'') \<Rightarrow> (out @ as, w''))
         else (out, w'))"

record script_env =
  header_reply :: "js_error + jsnum"
  wait_events :: "wait_event list"

text \<open>
  The status callback of the script for one result. On a finalized status with a failure
  event it prints the dispatch error, unsubscribes, disconnects and exits with code 1;
  otherwise it reads the header, unsubscribes, waits for the watermark and exits with 0.
\<close>

definition tx_test_callback :: "(module_error \<Rightarrow> meta_error) \<Rightarrow> script_env \<Rightarrow> submittable_result \<Rightarrow> script_action list" where
  "tx_test_callback findMetaError env r =
     (case status r of
        IsReady \<Rightarrow> [Out (Line ''Status of transfer: Ready'')]
      | IsBroadcast \<Rightarrow> [Out (Line ''Status of transfer: Broadcast'')]
      | IsInBlock h \<Rightarrow> [Out (Line (''Successful transfer ... InBlock '' @ h))]
      | IsFinalized h \<Rightarrow>
          Out (Line (''Status of transfer: Finalized at '' @ h)) #
          (if failed r then
             [Out (ErrorLine (dispatch_error_text findMetaError (dispatchError r))),
              CallUnsub, Disconnect, Exit 1]
           else
             GetHeader h #
             (case header_reply env of
                Inl e \<Rightarrow> []
              | Inr includedAtFinalizedBlock \<Rightarrow>
                  [Out (FinalizedIn includedAtFinalizedBlock), CallUnsub,
                   WaitForSecureUpTo includedAtFinalizedBlock,
                   Out (Watching includedAtFinalizedBlock)] @
                  (case script_wait (waitForSecureUpTo includedAtFinalizedBlock) (wait_events env) of
                     (out, w) \<Rightarrow>
                       out @ (if outcome w = Fulfilled then [SleepFor 50, Disconnect, Exit 0] else []))))
      | IsOther \<Rightarrow> [])"

text \<open>The text of a decoded module error, as the scripts print it.\<close>

definition decoded_text :: "meta_error \<Rightarrow> string" where
  "decoded_text meta =
     ''DispatchError: '' @ meta_section meta @ ''.'' @ meta_name meta @ '' - '' @
       join_space (meta_docs meta)"

text \<open>
  A transfer that is finalized with a failure event and a dispatch error that is not a
  module error, and a registry that decodes every module error to the same entry.
\<close>

definition bad_origin :: submittable_result where
  "bad_origin =
     \<lparr>status = IsFinalized ''0xbb'',
      events = Some [\<lparr>event_section = ''system'', event_method = ''ExtrinsicFailed''\<rparr>],
      dispatchError = Some (OtherDispatchError ''BadOrigin'')\<rparr>"

definition low_balance :: meta_error where
  "low_balance =
     \<lparr>meta_section = ''balances'', meta_name = ''InsufficientBalance'',
      meta_docs = [''Balance too low to send value.'']\<rparr>"

definition no_answers :: script_env where
  "no_answers = \<lparr>header_reply = Inl (Error ''unused''), wait_events = []\<rparr>"

text \<open>
  Results and a callback to run the model on: Ready, InBlock, a finalized result without a
  failure event, a finalized result that failed with a module error, a callback that
  always returns normally and one that always throws.
\<close>

definition ready :: submittable_result where
  "ready = \<lparr>status = IsReady, events = None, dispatchError = None\<rparr>"

definition in_block :: submittable_result where
  "in_block = \<lparr>status = IsInBlock ''0xaa'', events = Some [], dispatchError = None\<rparr>"

definition finalized_ok :: submittable_result where
  "finalized_ok =
     \<lparr>status = IsFinalized ''0xaa'',
      events = Some [\<lparr>event_section = ''system'', event_method = ''ExtrinsicSuccess''\<rparr>],
      dispatchError = None\<rparr>"

definition quiet_cb :: StatusCb where
  "quiet_cb x = None"

definition throwing_cb :: StatusCb where
  "throwing_cb x = Some (Error ''callback'')"

definition module_failure :: submittable_result where
  "module_failure = bad_origin\<lparr>dispatchError := Some (ModuleError (5, 2))\<rparr>"

section \<open>installSignAndSendSecure\<close>

text \<open>
  A property value is undefined, a function (named), or some other value, of which only
  the truthiness matters. A prototype object has its own properties and, through the rest
  of its prototype chain, inherited ones; reading a property takes the own one first.
  Prototypes live in a heap: all instances of a class share one.
\<close>

datatype js_value = Undefined | Func string | Other bool

fun truthy :: "js_value \<Rightarrow> bool" where
  "truthy Undefined = False"
| "truthy (Func _) = True"
| "truthy (Other b) = b"

record js_object =
  own :: "string \<rightharpoonup> js_value"
  inherited :: "string \<rightharpoonup> js_value"

definition get_prop :: "js_object \<Rightarrow> string \<Rightarrow> js_value" where
  "get_prop obj k =
     (case own obj k of
        Some v \<Rightarrow> v
      | None \<Rightarrow> (case inherited obj k of Some v \<Rightarrow> v | None \<Rightarrow> Undefined))"

type_synonym addr = nat

type_synonym heap = "addr \<Rightarrow> js_object"

record tx_instance =
  prototype :: addr

text \<open>
  \<^verbatim>\<open>const proto = Object.getPrototypeOf(anyTxInstance); if (proto.signAndSendSecure) return;
  proto.signAndSendSecure = async function (...) {...}\<close>.
\<close>

definition installSignAndSendSecure :: "heap \<Rightarrow> tx_instance \<Rightarrow> heap" where
  "installSignAndSendSecure h anyTxInstance =
     (let proto = h (prototype anyTxInstance) in
      if truthy (get_prop proto ''signAndSendSecure'') then h
      else h(prototype anyTxInstance :=
               proto\<lparr>own := (own proto)(''signAndSendSecure'' \<mapsto> Func ''signAndSendSecure'')\<rparr>))"

text \<open>A heap whose prototypes only have \<^verbatim>\<open>signAndSend\<close>, and two extrinsics of the same class.\<close>

definition plain_heap :: heap where
  "plain_heap a = \<lparr>own = [''signAndSend'' \<mapsto> Func ''signAndSend''], inherited = Map.empty\<rparr>"

definition probeTx :: tx_instance where
  "probeTx = \<lparr>prototype = 0\<rparr>"

definition transferTx :: tx_instance where
  "transferTx = \<lparr>prototype = 0\<rparr>"

text \<open>
  The invariant of a wait: \<^verbatim>\<open>unsub\<close> has been called only if the promise is fulfilled,
  the promise is pending until the subscription call has answered, and while the
  subscription is established the promise has not been rejected.
\<close>

definition wait_inv :: "waiter \<Rightarrow> bool" where
  "wait_inv w \<longleftrightarrow>
     (unsub_calls w = 0 \<or> outcome w = Fulfilled) \<and>
     (subscription w = Requested \<longrightarrow> outcome w = Pending) \<and>
     (subscription w = Established \<longrightarrow> outcome w = Pending \<or> outcome w = Fulfilled)"

section \<open>Properties of waitForSecureUpTo\<close>

lemma wait_inv_init: "wait_inv (waitForSecureUpTo T)"
  by (simp add: wait_inv_def waitForSecureUpTo_def)

lemma wait_inv_step: "wait_inv w \<Longrightarrow> wait_inv (on_wait_event w ev)"
  by (cases ev)
    (auto simp: wait_inv_def on_upTo_def resolve_def reject_def split: sum.splits)

lemma wait_inv_foldl: "wait_inv w \<Longrightarrow> wait_inv (foldl on_wait_event w evs)"
  by (induction evs arbitrary: w) (simp_all add: wait_inv_step)

lemma wait_inv_run: "wait_inv (wait_run T evs)"
  unfolding wait_run_def by (rule wait_inv_foldl [OF wait_inv_init])

lemma targetBlock_step: "targetBlock (on_wait_event w ev) = targetBlock w"
  by (cases ev) (auto simp: on_upTo_def resolve_def reject_def split: sum.splits)

lemma targetBlock_foldl: "targetBlock (foldl on_wait_event w evs) = targetBlock w"
  by (induction evs arbitrary: w) (simp_all add: targetBlock_step)

lemma targetBlock_run: "targetBlock (wait_run T evs) = T"
  by (simp add: wait_run_def targetBlock_foldl waitForSecureUpTo_def)

lemma wait_run_snoc: "wait_run T (evs @ [ev]) = on_wait_event (wait_run T evs) ev"
  by (simp add: wait_run_def)

text \<open>A step that calls \<^verbatim>\<open>unsub\<close> is a notification that satisfies the target, and it resolves.\<close>

lemma unsub_step:
  assumes "wait_inv w" and "unsub_calls (on_wait_event w ev) \<noteq> unsub_calls w"
  shows "(\<exists>upTo. ev = Notification upTo \<and> satisfies (targetBlock w) upTo) \<and>
         unsub_calls (on_wait_event w ev) = unsub_calls w + 1 \<and>
         outcome (on_wait_event w ev) = Fulfilled"
  using assms
  by (cases ev)
    (auto simp: wait_inv_def on_upTo_def resolve_def reject_def satisfies_def
      split: sum.splits if_splits)

text \<open>A step that settles a pending promise as fulfilled is such a notification, and it calls \<^verbatim>\<open>unsub\<close>.\<close>

lemma fulfil_step:
  assumes "outcome w = Pending" and "outcome (on_wait_event w ev) = Fulfilled"
  shows "(\<exists>upTo. ev = Notification upTo \<and> satisfies (targetBlock w) upTo) \<and>
         unsub_calls (on_wait_event w ev) = unsub_calls w + 1"
  using assms
  by (cases ev)
    (auto simp: on_upTo_def resolve_def reject_def satisfies_def split: sum.splits if_splits)

text \<open>
  Claim C10: a notification whose value does not convert to a finite number leaves the wait
  exactly as it was, whatever the target and whatever the state of the wait: the promise is
  neither resolved nor rejected and \<^verbatim>\<open>unsub\<close> is not called. When the conversion itself
  throws, only the callback's own rejection is recorded; promise, subscription and the
  count of \<^verbatim>\<open>unsub\<close> calls stay as they were.
\<close>

theorem non_finite_notification_ignored:
  "(n_of upTo = Inr n \<and> \<not> isFinite n \<longrightarrow> on_wait_event w (Notification upTo) = w) \<and>
   (n_of upTo = Inl e \<longrightarrow>
      on_wait_event w (Notification upTo) = w\<lparr>unhandled := unhandled w @ [e]\<rparr>)"
  by (simp add: on_upTo_def)

theorem non_finite_notification_ignored_witness:
  "n_of \<lparr>has_toNumber = False, toNumber = Inr (Finite 7), Number_of = NaN\<rparr> = Inr NaN \<and>
   \<not> isFinite NaN \<and>
   on_wait_event (wait_run (Finite 5) [Subscribed])
     (Notification \<lparr>has_toNumber = False, toNumber = Inr (Finite 7), Number_of = NaN\<rparr>)
   = wait_run (Finite 5) [Subscribed] \<and>
   outcome (wait_run (Finite 5) [Subscribed]) = Pending \<and>
   n_of \<lparr>has_toNumber = True, toNumber = Inl (Error ''53 bits''), Number_of = NaN\<rparr> =
     Inl (Error ''53 bits'') \<and>
   outcome (on_wait_event (wait_run (Finite 5) [Subscribed])
     (Notification \<lparr>has_toNumber = True, toNumber = Inl (Error ''53 bits''), Number_of = NaN\<rparr>))
   = Pending"
proof -
  have h: "n_of \<lparr>has_toNumber = False, toNumber = Inr (Finite 7), Number_of = NaN\<rparr> = Inr NaN"
    by (simp add: n_of_def)
  have k: "n_of \<lparr>has_toNumber = True, toNumber = Inl (Error ''53 bits''), Number_of = NaN\<rparr> =
     Inl (Error ''53 bits'')"
    by (simp add: n_of_def)
  have p: "outcome (wait_run (Finite 5) [Subscribed]) = Pending"
    by (simp add: wait_run_def waitForSecureUpTo_def)
  show ?thesis
    using h k p
      non_finite_notification_ignored [of
        "\<lparr>has_toNumber = False, toNumber = Inr (Finite 7), Number_of = NaN\<rparr>" NaN
        "wait_run (Finite 5) [Subscribed]"]
      non_finite_notification_ignored [of
        "\<lparr>has_toNumber = True, toNumber = Inl (Error ''53 bits''), Number_of = NaN\<rparr>" _
        "wait_run (Finite 5) [Subscribed]" "Error ''53 bits''"]
    by simp
qed

text \<open>
  Claim C5: for every target, once the subscription is established the wait is pending
  and \<^verbatim>\<open>unsub\<close> has not been called; if the first value delivered then converts to a finite
  number that is at least the target, that very notification fulfils the promise and calls
  \<^verbatim>\<open>unsub\<close> once, with no later notification; a first value that does not satisfy the target
  leaves the wait pending. The same holds for the copy of the wait in the test script.
\<close>

theorem first_notification_resolves:
  "outcome (wait_run T [Subscribed]) = Pending \<and>
   unsub_calls (wait_run T [Subscribed]) = 0 \<and>
   outcome (snd (script_wait (waitForSecureUpTo T) [Subscribed])) = Pending \<and>
   unsub_calls (snd (script_wait (waitForSecureUpTo T) [Subscribed])) = 0 \<and>
   (n_of upTo = Inr n \<and> isFinite n \<and> js_ge n T \<longrightarrow>
      outcome (wait_run T [Subscribed, Notification upTo]) = Fulfilled \<and>
      unsub_calls (wait_run T [Subscribed, Notification upTo]) = 1 \<and>
      outcome (snd (script_wait (waitForSecureUpTo T) [Subscribed, Notification upTo])) = Fulfilled \<and>
      unsub_calls (snd (script_wait (waitForSecureUpTo T) [Subscribed, Notification upTo])) = 1) \<and>
   (\<not> satisfies T upTo \<longrightarrow>
      outcome (wait_run T [Subscribed, Notification upTo]) = Pending \<and>
      unsub_calls (wait_run T [Subscribed, Notification upTo]) = 0 \<and>
      outcome (snd (script_wait (waitForSecureUpTo T) [Subscribed, Notification upTo])) = Pending \<and>
      unsub_calls (snd (script_wait (waitForSecureUpTo T) [Subscribed, Notification upTo])) = 0)"
  by (auto simp: wait_run_def waitForSecureUpTo_def on_upTo_def resolve_def satisfies_def
      split: sum.splits)

theorem first_notification_resolves_witness:
  "outcome (wait_run (Finite 100) [Subscribed]) = Pending \<and>
   unsub_calls (wait_run (Finite 100) [Subscribed]) = 0 \<and>
   n_of (codec 105) = Inr (Finite 105) \<and> isFinite (Finite 105) \<and>
   js_ge (Finite 105) (Finite 100) \<and>
   outcome (wait_run (Finite 100) [Subscribed, Notification (codec 105)]) = Fulfilled \<and>
   unsub_calls (wait_run (Finite 100) [Subscribed, Notification (codec 105)]) = 1 \<and>
   outcome (snd (script_wait (waitForSecureUpTo (Finite 100)) [Subscribed, Notification (codec 105)])) = Fulfilled \<and>
   unsub_calls (snd (script_wait (waitForSecureUpTo (Finite 100)) [Subscribed, Notification (codec 105)])) = 1 \<and>
   \<not> satisfies (Finite 100) (codec 99) \<and>
   outcome (wait_run (Finite 100) [Subscribed, Notification (codec 99)]) = Pending \<and>
   outcome (snd (script_wait (waitForSecureUpTo (Finite 100)) [Subscribed, Notification (codec 99)])) = Pending"
proof -
  have h: "n_of (codec 105) = Inr (Finite 105)" "\<not> satisfies (Finite 100) (codec 99)"
    by (simp_all add: n_of_def codec_def satisfies_def)
  show ?thesis
    using h first_notification_resolves [of "Finite 100" "codec 105" "Finite 105"]
      first_notification_resolves [of "Finite 100" "codec 99"]
    by simp
qed

text \<open>
  Claim C4, as stated, asks for a cancellation that tears the subscription down and leaves
  the promise pending. No event of a wait does that: the subscribed wait for block 100 is
  pending with \<^verbatim>\<open>unsub\<close> uncalled, a watermark of 99 leaves it so, a watermark of 100 calls
  \<^verbatim>\<open>unsub\<close> and fulfils the promise, and whatever happens to it either leaves \<^verbatim>\<open>unsub\<close>
  uncalled or settles the promise.
\<close>

theorem no_silent_cancellation:
  "outcome (wait_run (Finite 100) [Subscribed]) = Pending \<and>
   unsub_calls (wait_run (Finite 100) [Subscribed]) = 0 \<and>
   on_wait_event (wait_run (Finite 100) [Subscribed]) (Notification (codec 99)) =
     wait_run (Finite 100) [Subscribed] \<and>
   unsub_calls (on_wait_event (wait_run (Finite 100) [Subscribed]) (Notification (codec 100))) = 1 \<and>
   outcome (on_wait_event (wait_run (Finite 100) [Subscribed]) (Notification (codec 100))) = Fulfilled \<and>
   \<not> (\<exists>ev. unsub_calls (on_wait_event (wait_run (Finite 100) [Subscribed]) ev) > 0 \<and>
            outcome (on_wait_event (wait_run (Finite 100) [Subscribed]) ev) = Pending)"
proof -
  have a: "\<not> (\<exists>ev. unsub_calls (on_wait_event (wait_run (Finite 100) [Subscribed]) ev) > 0 \<and>
            outcome (on_wait_event (wait_run (Finite 100) [Subscribed]) ev) = Pending)"
  proof
    assume "\<exists>ev. unsub_calls (on_wait_event (wait_run (Finite 100) [Subscribed]) ev) > 0 \<and>
                 outcome (on_wait_event (wait_run (Finite 100) [Subscribed]) ev) = Pending"
    then obtain ev where
      ev: "unsub_calls (on_wait_event (wait_run (Finite 100) [Subscribed]) ev) > 0"
          "outcome (on_wait_event (wait_run (Finite 100) [Subscribed]) ev) = Pending"
      by blast
    have "wait_inv (on_wait_event (wait_run (Finite 100) [Subscribed]) ev)"
      by (rule wait_inv_step [OF wait_inv_run])
    then have "unsub_calls (on_wait_event (wait_run (Finite 100) [Subscribed]) ev) = 0 \<or>
               outcome (on_wait_event (wait_run (Finite 100) [Subscribed]) ev) = Fulfilled"
      by (simp add: wait_inv_def)
    with ev show False by simp
  qed
  have b: "outcome (wait_run (Finite 100) [Subscribed]) = Pending \<and>
   unsub_calls (wait_run (Finite 100) [Subscribed]) = 0 \<and>
   on_wait_event (wait_run (Finite 100) [Subscribed]) (Notification (codec 99)) =
     wait_run (Finite 100) [Subscribed] \<and>
   unsub_calls (on_wait_event (wait_run (Finite 100) [Subscribed]) (Notification (codec 100))) = 1 \<and>
   outcome (on_wait_event (wait_run (Finite 100) [Subscribed]) (Notification (codec 100))) = Fulfilled"
    by (simp add: wait_run_def waitForSecureUpTo_def on_upTo_def resolve_def n_of_def codec_def)
  from a b show ?thesis by blast
qed

text \<open>
  Claim C4, amended: the wait has no cancellation. A wait starts pending with \<^verbatim>\<open>unsub\<close>
  uncalled. Along every run of a wait, for every target, a step calls \<^verbatim>\<open>unsub\<close> only if it
  is a notification that satisfies the target, and that same step leaves the promise
  fulfilled; a step that fulfils the pending promise is such a notification and calls
  \<^verbatim>\<open>unsub\<close>; so whenever \<^verbatim>\<open>unsub\<close> has been called the promise is fulfilled, and while the
  promise is pending the subscription has not been torn down.
\<close>

theorem unsub_only_with_resolve:
  "outcome (wait_run T []) = Pending \<and> unsub_calls (wait_run T []) = 0 \<and>
   (unsub_calls (wait_run T (evs @ [ev])) \<noteq> unsub_calls (wait_run T evs) \<longrightarrow>
      (\<exists>upTo. ev = Notification upTo \<and> satisfies T upTo) \<and>
      unsub_calls (wait_run T (evs @ [ev])) = unsub_calls (wait_run T evs) + 1 \<and>
      outcome (wait_run T (evs @ [ev])) = Fulfilled) \<and>
   (outcome (wait_run T evs) = Pending \<and> outcome (wait_run T (evs @ [ev])) = Fulfilled \<longrightarrow>
      (\<exists>upTo. ev = Notification upTo \<and> satisfies T upTo) \<and>
      unsub_calls (wait_run T (evs @ [ev])) = unsub_calls (wait_run T evs) + 1) \<and>
   (unsub_calls (wait_run T evs) > 0 \<longrightarrow> outcome (wait_run T evs) = Fulfilled) \<and>
   (outcome (wait_run T evs) = Pending \<longrightarrow> unsub_calls (wait_run T evs) = 0)"
proof -
  have init: "outcome (wait_run T []) = Pending \<and> unsub_calls (wait_run T []) = 0"
    by (simp add: wait_run_def waitForSecureUpTo_def)
  have step: "unsub_calls (wait_run T (evs @ [ev])) \<noteq> unsub_calls (wait_run T evs) \<longrightarrow>
      (\<exists>upTo. ev = Notification upTo \<and> satisfies T upTo) \<and>
      unsub_calls (wait_run T (evs @ [ev])) = unsub_calls (wait_run T evs) + 1 \<and>
      outcome (wait_run T (evs @ [ev])) = Fulfilled"
    using unsub_step [OF wait_inv_run, of T evs ev]
    by (simp add: wait_run_snoc targetBlock_run)
  have ful: "outcome (wait_run T evs) = Pending \<and> outcome (wait_run T (evs @ [ev])) = Fulfilled \<longrightarrow>
      (\<exists>upTo. ev = Notification upTo \<and> satisfies T upTo) \<and>
      unsub_calls (wait_run T (evs @ [ev])) = unsub_calls (wait_run T evs) + 1"
    using fulfil_step [of "wait_run T evs" ev]
    by (simp add: wait_run_snoc targetBlock_run)
  have inv: "(unsub_calls (wait_run T evs) > 0 \<longrightarrow> outcome (wait_run T evs) = Fulfilled) \<and>
     (outcome (wait_run T evs) = Pending \<longrightarrow> unsub_calls (wait_run T evs) = 0)"
    using wait_inv_run [of T evs] by (auto simp: wait_inv_def)
  from init step ful inv show ?thesis by blast
qed

theorem unsub_only_with_resolve_witness:
  "unsub_calls (wait_run (Finite 100) ([Subscribed, Notification (codec 99)] @ [Notification (codec 100)]))
     \<noteq> unsub_calls (wait_run (Finite 100) [Subscribed, Notification (codec 99)]) \<and>
   satisfies (Finite 100) (codec 100) \<and>
   outcome (wait_run (Finite 100) [Subscribed, Notification (codec 99)]) = Pending \<and>
   unsub_calls (wait_run (Finite 100) [Subscribed, Notification (codec 99)]) = 0 \<and>
   outcome (wait_run (Finite 100) ([Subscribed, Notification (codec 99)] @ [Notification (codec 100)])) = Fulfilled \<and>
   unsub_calls (wait_run (Finite 100) ([Subscribed, Notification (codec 99)] @ [Notification (codec 100)])) = 1 \<and>
   0 < unsub_calls (wait_run (Finite 100) [Subscribed, Notification (codec 99), Notification (codec 100)]) \<and>
   outcome (wait_run (Finite 100) [Subscribed, Notification (codec 99), Notification (codec 100)]) = Fulfilled"
  using unsub_only_with_resolve [of "Finite 100" "[Subscribed, Notification (codec 99)]"
      "Notification (codec 100)"]
    unsub_only_with_resolve [of "Finite 100"
      "[Subscribed, Notification (codec 99), Notification (codec 100)]"]
  by (simp add: wait_run_def waitForSecureUpTo_def on_upTo_def resolve_def n_of_def codec_def
      satisfies_def)

section \<open>Properties of the watermark advancer\<close>

lemma flight_append:
  "flight b (xs @ ys) = (case flight b xs of None \<Rightarrow> None | Some b' \<Rightarrow> flight b' ys)"
  by (induction b xs rule: flight.induct) auto

lemma flight_logs: "flight b (map Log ls) = Some b"
  by (induction ls) auto

lemma flight_logs_append [simp]: "flight b (map Log ls @ ys) = flight b ys"
  by (simp add: flight_append flight_logs)

lemma sudo_results_settled:
  "sudo_results fme rs = (ls, p) \<Longrightarrow> p \<noteq> Pending \<Longrightarrow> list_ex is_finalized rs"
  by (induction rs arbitrary: ls p) (auto simp: is_finalized_def split: tx_status.splits prod.splits if_splits)

lemma sudo_results_pending:
  "sudo_results fme rs = (ls, Pending) \<Longrightarrow> \<not> list_ex is_finalized rs"
  by (induction rs arbitrary: ls) (auto simp: is_finalized_def split: tx_status.splits prod.splits if_splits)

lemma flight_tick:
  "flight False (fst (tick cfg st env)) = Some (snd (tick cfg st env) = None)"
  by (auto simp: tick_def try_block_def Let_def flight_logs split: sum.splits prod.splits promise_state.splits)

lemma flight_main_loop: "flight False (fst (main_loop cfg st envs)) \<noteq> None"
proof (induction envs arbitrary: st)
  case Nil
  then show ?case by simp
next
  case (Cons env envs)
  show ?case
  proof (cases "snd (tick cfg st env)")
    case None
    then show ?thesis using flight_tick [of cfg st env]
      by (auto split: prod.splits)
  next
    case (Some st')
    then show ?thesis using flight_tick [of cfg st env] Cons.IH [of st']
      by (auto simp: flight_append split: prod.splits)
  qed
qed

lemma outstanding_Cons: "outstanding (a # as) = delta a + outstanding as"
  by (simp add: outstanding_def)

lemma flight_bound:
  "flight b tr = Some b' \<Longrightarrow>
   0 \<le> outstanding (take n tr) + (if b then 1 else 0) \<and>
   outstanding (take n tr) + (if b then 1 else 0) \<le> 1"
proof (induction tr arbitrary: b n)
  case Nil
  then show ?case by (simp add: outstanding_def)
next
  case (Cons a as)
  show ?case
  proof (cases n)
    case 0
    then show ?thesis by (simp add: outstanding_def)
  next
    case (Suc m)
    show ?thesis
    proof (cases a)
      case (SudoAdvance t)
      with Cons.prems have "\<not> b" and "flight True as = Some b'"
        by (auto split: if_splits)
      with Cons.IH [of True m] show ?thesis
        using Suc SudoAdvance by (simp add: outstanding_Cons)
    next
      case (AdvanceSettled s)
      with Cons.prems have "b" and "flight False as = Some b'"
        by (auto split: if_splits)
      with Cons.IH [of False m] show ?thesis
        using Suc AdvanceSettled by (simp add: outstanding_Cons)
    qed (use Cons.prems Cons.IH [of b m] Suc in \<open>simp_all add: outstanding_Cons\<close>)
  qed
qed


lemma flight_end:
  "flight b tr = Some b' \<Longrightarrow>
   outstanding tr + (if b then 1 else 0) = (if b' then 1 else 0)"
proof (induction tr arbitrary: b)
  case Nil
  then show ?case by (simp add: outstanding_def)
next
  case (Cons a as)
  show ?case
  proof (cases a)
    case (SudoAdvance t)
    with Cons.prems have "\<not> b" and "flight True as = Some b'"
      by (auto split: if_splits)
    with Cons.IH [of True] show ?thesis
      using SudoAdvance by (simp add: outstanding_Cons)
  next
    case (AdvanceSettled s)
    with Cons.prems have "b" and "flight False as = Some b'"
      by (auto split: if_splits)
    with Cons.IH [of False] show ?thesis
      using AdvanceSettled by (simp add: outstanding_Cons)
  qed (use Cons.prems Cons.IH [of b] in \<open>simp_all add: outstanding_Cons\<close>)
qed

lemma calls_of_append: "calls_of (xs @ ys) = calls_of xs @ calls_of ys"
  by (induction xs rule: calls_of.induct) auto

lemma calls_of_logs: "calls_of (map Log ls) = []"
  by (induction ls) auto

lemma outstanding_append: "outstanding (xs @ ys) = outstanding xs + outstanding ys"
  by (simp add: outstanding_def)

lemma outstanding_logs: "outstanding (map Log ls) = 0"
  by (induction ls) (simp_all add: outstanding_def)

lemma sendSudoAdvance_settled:
  "sendSudoAdvance fme stream = (ls, p) \<Longrightarrow> p \<noteq> Pending \<Longrightarrow>
   (case stream of Inl e \<Rightarrow> True | Inr rs \<Rightarrow> list_ex is_finalized rs)"
  by (auto simp: sendSudoAdvance_def split: sum.splits dest: sudo_results_settled)

text \<open>
  Claim C6: in a run of the loop body that is entered with \<^verbatim>\<open>inFlight\<close> clear, dry-run
  off, and both reads answered: if the finalized height is greater than the watermark,
  exactly one privileged call is submitted and it targets the finalized height, and the
  body finishes only after that call has settled, which needs a Finalized status on its
  stream (or the submission itself throwing); otherwise no privileged call is submitted.
\<close>

theorem tick_advances_iff_lagging:
  assumes "\<not> inFlight st" and "\<not> DRY_RUN cfg"
    and "finalized_read env = Inr finalized"
    and "getSecureUpTo (watermark_read env) = Inr currentUp"
  shows "(js_gt finalized currentUp \<longrightarrow>
            calls_of (fst (tick cfg st env)) = [finalized] \<and>
            (snd (tick cfg st env) \<noteq> None \<longrightarrow>
               outstanding (fst (tick cfg st env)) = 0 \<and>
               (case sudo_stream env of Inl e \<Rightarrow> True | Inr rs \<Rightarrow> list_ex is_finalized rs))) \<and>
         (\<not> js_gt finalized currentUp \<longrightarrow> calls_of (fst (tick cfg st env)) = [])"
proof (cases "js_gt finalized currentUp")
  case False
  with assms show ?thesis
    by (simp add: tick_def try_block_def Promise_all2_def Let_def)
next
  case True
  obtain ls p where sa: "sendSudoAdvance (registry cfg) (sudo_stream env) = (ls, p)"
    by (cases "sendSudoAdvance (registry cfg) (sudo_stream env)")
  have fin: "p \<noteq> Pending \<Longrightarrow>
      (case sudo_stream env of Inl e \<Rightarrow> True | Inr rs \<Rightarrow> list_ex is_finalized rs)"
    using sendSudoAdvance_settled [OF sa] .
  show ?thesis
  proof (cases p)
    case Pending
    with assms True sa show ?thesis
      by (simp add: tick_def try_block_def Promise_all2_def Let_def calls_of_append calls_of_logs)
  next
    case Fulfilled
    with assms True sa fin show ?thesis
      by (cases "getSecureUpTo (after_read env)")
        (simp_all add: tick_def try_block_def Promise_all2_def Let_def calls_of_append calls_of_logs
           outstanding_append outstanding_logs outstanding_Cons, simp_all add: outstanding_def)
  next
    case (Rejected e)
    with assms True sa fin show ?thesis
      by (simp add: tick_def try_block_def Promise_all2_def Let_def calls_of_append calls_of_logs
           outstanding_append outstanding_logs outstanding_Cons, simp add: outstanding_def)
  qed
qed

lemmas advancer_eval =
  live_def idle_def chain_env_def failing_env_def failing_stream_def ok_stream_def
  tick_def try_block_def Promise_all2_def getSecureUpTo_def n_of_def codec_def
  sendSudoAdvance_def failed_def Let_def dispatch_error_text_def is_finalized_def

theorem tick_advances_iff_lagging_witness:
  "\<not> inFlight idle \<and> \<not> DRY_RUN live \<and>
   finalized_read (chain_env 11 10) = Inr (Finite 11) \<and>
   getSecureUpTo (watermark_read (chain_env 11 10)) = Inr (Finite 10) \<and>
   js_gt (Finite 11) (Finite 10) \<and>
   calls_of (fst (tick live idle (chain_env 11 10))) = [Finite 11] \<and>
   snd (tick live idle (chain_env 11 10)) \<noteq> None \<and>
   outstanding (fst (tick live idle (chain_env 11 10))) = 0 \<and>
   finalized_read (chain_env 10 10) = Inr (Finite 10) \<and>
   getSecureUpTo (watermark_read (chain_env 10 10)) = Inr (Finite 10) \<and>
   \<not> js_gt (Finite 10) (Finite 10) \<and>
   calls_of (fst (tick live idle (chain_env 10 10))) = []"
proof -
  have h1: "\<not> inFlight idle" by (simp add: idle_def)
  have h2: "\<not> DRY_RUN live" by (simp add: live_def)
  have h3: "finalized_read (chain_env 11 10) = Inr (Finite 11)" by (simp add: chain_env_def)
  have h4: "getSecureUpTo (watermark_read (chain_env 11 10)) = Inr (Finite 10)"
    by (simp add: chain_env_def getSecureUpTo_def n_of_def codec_def)
  have h5: "finalized_read (chain_env 10 10) = Inr (Finite 10)" by (simp add: chain_env_def)
  have h6: "getSecureUpTo (watermark_read (chain_env 10 10)) = Inr (Finite 10)"
    by (simp add: chain_env_def getSecureUpTo_def n_of_def codec_def)
  have g3: "snd (tick live idle (chain_env 11 10)) \<noteq> None" by (simp add: advancer_eval)
  show ?thesis
    using h1 h2 h3 h4 h5 h6 g3
      tick_advances_iff_lagging [OF h1 h2 h3 h4] tick_advances_iff_lagging [OF h1 h2 h5 h6]
    by simp
qed

text \<open>
  Claim C7: a run of the loop body that finds \<^verbatim>\<open>inFlight\<close> set does no work (it only
  sleeps; nothing is read, submitted or queued); at every point of every run of the loop
  the number of privileged calls submitted and not yet settled is 0 or 1; and a body that
  finishes always leaves \<^verbatim>\<open>inFlight\<close> clear, because it has awaited its advancement.
\<close>

theorem single_flight:
  "(inFlight st \<longrightarrow>
      tick cfg st env =
        ([Sleep 200, SleepInterval], Some (st\<lparr>inFlight := False, stop := stop st \<or> sigint env\<rparr>))) \<and>
   0 \<le> outstanding (take n (fst (main_loop cfg st envs))) \<and>
   outstanding (take n (fst (main_loop cfg st envs))) \<le> 1 \<and>
   (snd (tick cfg st env) = Some st' \<longrightarrow> \<not> inFlight st' \<and> outstanding (fst (tick cfg st env)) = 0)"
proof -
  obtain b where "flight False (fst (main_loop cfg st envs)) = Some b"
    using flight_main_loop [of cfg st envs] by auto
  from flight_bound [OF this, of n]
  have bound: "0 \<le> outstanding (take n (fst (main_loop cfg st envs))) \<and>
               outstanding (take n (fst (main_loop cfg st envs))) \<le> 1"
    by simp
  have guard: "inFlight st \<longrightarrow>
      tick cfg st env =
        ([Sleep 200, SleepInterval], Some (st\<lparr>inFlight := False, stop := stop st \<or> sigint env\<rparr>))"
    by (simp add: tick_def try_block_def)
  have clear: "snd (tick cfg st env) = Some st' \<longrightarrow> \<not> inFlight st'"
    by (auto simp: tick_def try_block_def Let_def
        split: prod.splits try_end.splits if_splits sum.splits promise_state.splits)
  have settled: "snd (tick cfg st env) = Some st' \<longrightarrow> outstanding (fst (tick cfg st env)) = 0"
  proof
    assume c: "snd (tick cfg st env) = Some st'"
    then have f: "flight False (fst (tick cfg st env)) = Some False"
      using flight_tick [of cfg st env] by simp
    from flight_bound [OF f, of "length (fst (tick cfg st env))"] flight_end [OF f]
    show "outstanding (fst (tick cfg st env)) = 0" by simp
  qed
  from bound guard clear settled show ?thesis by blast
qed

theorem single_flight_witness:
  "inFlight busy \<and>
   tick live busy (chain_env 11 10) = ([Sleep 200, SleepInterval], Some idle) \<and>
   0 \<le> outstanding (take 6 (fst (main_loop live busy [chain_env 11 10, chain_env 11 10]))) \<and>
   outstanding (take 6 (fst (main_loop live busy [chain_env 11 10, chain_env 11 10]))) = 1 \<and>
   snd (tick live busy (chain_env 11 10)) = Some idle \<and> \<not> inFlight idle \<and>
   outstanding (fst (tick live busy (chain_env 11 10))) = 0"
proof -
  have o: "outstanding (take 6 (fst (main_loop live busy [chain_env 11 10, chain_env 11 10]))) = 1"
    by (simp add: advancer_eval busy_def outstanding_def)
  have b: "inFlight busy" by (simp add: busy_def)
  have s: "busy\<lparr>inFlight := False, stop := stop busy \<or> sigint (chain_env 11 10)\<rparr> = idle"
    by (simp add: busy_def idle_def chain_env_def)
  show ?thesis
    using o b s
      single_flight [of busy live "chain_env 11 10" 6 "[chain_env 11 10, chain_env 11 10]" idle]
    by (simp add: outstanding_def)
qed

lemma main_loop_exit:
  "snd (main_loop cfg st envs) = Exited \<Longrightarrow> stop st \<or> (\<exists>env\<in>set envs. sigint env)"
proof (induction envs arbitrary: st)
  case Nil
  then show ?case by (simp split: if_splits)
next
  case (Cons env envs)
  show ?case
  proof (cases "stop st")
    case True
    then show ?thesis by simp
  next
    case False
    show ?thesis
    proof (cases "tick cfg st env")
      case (Pair tr r)
      show ?thesis
      proof (cases r)
        case None
        with Pair False Cons.prems show ?thesis by (simp split: if_splits)
      next
        case (Some st')
        with Pair False Cons.prems have ex: "snd (main_loop cfg st' envs) = Exited"
          by (simp split: prod.splits)
        from Pair Some have "stop st' = (stop st \<or> sigint env)"
          by (auto simp: tick_def try_block_def Let_def
              split: prod.splits try_end.splits if_splits sum.splits promise_state.splits)
        with Cons.IH [OF ex] False show ?thesis by auto
      qed
    qed
  qed
qed

lemma tick_hangs:
  "snd (tick cfg st env) = None \<Longrightarrow>
   \<exists>rs. sudo_stream env = Inr rs \<and> \<not> list_ex is_finalized rs"
  by (auto simp: tick_def try_block_def Let_def sendSudoAdvance_def
      split: prod.splits try_end.splits if_splits sum.splits promise_state.splits
      dest: sudo_results_pending)

lemma main_loop_blocked:
  "snd (main_loop cfg st envs) = Blocked \<Longrightarrow>
   \<exists>env\<in>set envs. \<exists>rs. sudo_stream env = Inr rs \<and> \<not> list_ex is_finalized rs"
proof (induction envs arbitrary: st)
  case Nil
  then show ?case by (simp split: if_splits)
next
  case (Cons env envs)
  show ?case
  proof (cases "tick cfg st env")
    case (Pair tr r)
    show ?thesis
    proof (cases r)
      case None
      with Pair have "snd (tick cfg st env) = None" by simp
      from tick_hangs [OF this] show ?thesis by auto
    next
      case (Some st')
      with Pair Cons.prems have "snd (main_loop cfg st' envs) = Blocked"
        by (simp split: prod.splits if_splits)
      from Cons.IH [OF this] show ?thesis by auto
    qed
  qed
qed

lemma sudo_results_failed:
  "\<forall>x\<in>set pre. \<not> is_finalized x \<Longrightarrow> status r = IsFinalized h \<Longrightarrow> failed r \<Longrightarrow>
   snd (sudo_results fme (pre @ r # post)) = Rejected (Error ''sudo extrinsic failed'')"
  by (induction pre) (auto simp: is_finalized_def split: tx_status.splits prod.splits)

lemma main_loop_running:
  assumes "\<not> stop st"
    and "\<forall>env\<in>set envs. \<not> sigint env \<and>
           (case sudo_stream env of Inl e \<Rightarrow> True | Inr rs \<Rightarrow> list_ex is_finalized rs)"
  shows "\<exists>st'. snd (main_loop cfg st envs) = Running st'"
proof (cases "snd (main_loop cfg st envs)")
  case Exited
  from main_loop_exit [OF this] assms show ?thesis by auto
next
  case Blocked
  from main_loop_blocked [OF this] assms(2) show ?thesis by force
next
  case (Running st')
  then show ?thesis by simp
qed

text \<open>
  Claim C8: every error of a run of the loop body is caught in that run. A failed read
  (either one) makes the \<^verbatim>\<open>try\<close> block throw; so does an advancement whose submission
  throws or whose extrinsic is finalized with a failure event, and a failed read after
  the advance. Whatever the block throws is logged and followed by the fixed
  \<^verbatim>\<open>sleep(1000)\<close> and then the normal interval sleep, and the body hands the loop a state
  to go on with. The loop exits only if the stop flag was set from outside; it gets stuck
  only in an advancement that never reaches a Finalized status; with neither, it is still
  running after any number of failing runs.
\<close>

theorem tick_errors_never_fatal:
  "(try_block cfg st env = (tr, Threw e, st1) \<longrightarrow>
      tick cfg st env =
        (tr @ [Log (LoopError e), Sleep 1000, SleepInterval],
         Some (st1\<lparr>inFlight := False, stop := stop st1 \<or> sigint env\<rparr>))) \<and>
   (finalized_read env = Inl e1 \<or> getSecureUpTo (watermark_read env) = Inl e2 \<longrightarrow>
      (\<exists>e. Promise_all2 (watermark_fails_first env) (finalized_read env)
              (getSecureUpTo (watermark_read env)) = Inl e)) \<and>
   (\<not> inFlight st \<and>
    Promise_all2 (watermark_fails_first env) (finalized_read env)
      (getSecureUpTo (watermark_read env)) = Inl e3 \<longrightarrow>
      tick cfg st env =
        ([ReadHeights, Log (LoopError e3), Sleep 1000, SleepInterval],
         Some (st\<lparr>inFlight := False, stop := stop st \<or> sigint env\<rparr>))) \<and>
   ((\<forall>x\<in>set pre. \<not> is_finalized x) \<and> status r = IsFinalized h \<and> failed r \<longrightarrow>
      snd (sendSudoAdvance (registry cfg) (Inr (pre @ r # post))) =
        Rejected (Error ''sudo extrinsic failed'')) \<and>
   sendSudoAdvance (registry cfg) (Inl e4) = ([], Rejected e4) \<and>
   (\<not> inFlight st \<and> \<not> DRY_RUN cfg \<and>
    Promise_all2 (watermark_fails_first env) (finalized_read env)
      (getSecureUpTo (watermark_read env)) = Inr (finalized, currentUp) \<and>
    js_gt finalized currentUp \<and>
    sendSudoAdvance (registry cfg) (sudo_stream env) = (ls, Rejected e5) \<longrightarrow>
      tick cfg st env =
        ([ReadHeights, Log (TickLine finalized currentUp True),
          Log (Advancing currentUp finalized), SudoAdvance finalized] @ map Log ls @
         [AdvanceSettled False, Log (LoopError e5), Sleep 1000, SleepInterval],
         Some (st\<lparr>inFlight := False, stop := stop st \<or> sigint env\<rparr>))) \<and>
   (\<not> inFlight st \<and> \<not> DRY_RUN cfg \<and>
    Promise_all2 (watermark_fails_first env) (finalized_read env)
      (getSecureUpTo (watermark_read env)) = Inr (finalized, currentUp) \<and>
    js_gt finalized currentUp \<and>
    sendSudoAdvance (registry cfg) (sudo_stream env) = (ls, Fulfilled) \<and>
    getSecureUpTo (after_read env) = Inl e6 \<longrightarrow>
      tick cfg st env =
        ([ReadHeights, Log (TickLine finalized currentUp True),
          Log (Advancing currentUp finalized), SudoAdvance finalized] @ map Log ls @
         [AdvanceSettled True, ReadAfter, Log (LoopError e6), Sleep 1000, SleepInterval],
         Some (st\<lparr>inFlight := False, stop := stop st \<or> sigint env\<rparr>))) \<and>
   (snd (main_loop cfg st envs) = Exited \<longrightarrow> stop st \<or> (\<exists>env\<in>set envs. sigint env)) \<and>
   (snd (main_loop cfg st envs) = Blocked \<longrightarrow>
      (\<exists>env\<in>set envs. \<exists>rs. sudo_stream env = Inr rs \<and> \<not> list_ex is_finalized rs)) \<and>
   (\<not> stop st \<and>
    (\<forall>env\<in>set envs. \<not> sigint env \<and>
       (case sudo_stream env of Inl e \<Rightarrow> True | Inr rs \<Rightarrow> list_ex is_finalized rs)) \<longrightarrow>
      (\<exists>st'. snd (main_loop cfg st envs) = Running st'))"
proof -
  have c1: "try_block cfg st env = (tr, Threw e, st1) \<longrightarrow>
      tick cfg st env =
        (tr @ [Log (LoopError e), Sleep 1000, SleepInterval],
         Some (st1\<lparr>inFlight := False, stop := stop st1 \<or> sigint env\<rparr>))"
    by (simp add: tick_def)
  have c2: "finalized_read env = Inl e1 \<or> getSecureUpTo (watermark_read env) = Inl e2 \<longrightarrow>
      (\<exists>e. Promise_all2 (watermark_fails_first env) (finalized_read env)
              (getSecureUpTo (watermark_read env)) = Inl e)"
    by (auto simp: Promise_all2_def split: sum.splits)
  have c3: "\<not> inFlight st \<and>
    Promise_all2 (watermark_fails_first env) (finalized_read env)
      (getSecureUpTo (watermark_read env)) = Inl e3 \<longrightarrow>
      tick cfg st env =
        ([ReadHeights, Log (LoopError e3), Sleep 1000, SleepInterval],
         Some (st\<lparr>inFlight := False, stop := stop st \<or> sigint env\<rparr>))"
    by (simp add: tick_def try_block_def)
  have c4: "(\<forall>x\<in>set pre. \<not> is_finalized x) \<and> status r = IsFinalized h \<and> failed r \<longrightarrow>
      snd (sendSudoAdvance (registry cfg) (Inr (pre @ r # post))) =
        Rejected (Error ''sudo extrinsic failed'')"
    using sudo_results_failed [of pre r h "registry cfg" post]
    by (simp add: sendSudoAdvance_def)
  have c5: "sendSudoAdvance (registry cfg) (Inl e4) = ([], Rejected e4)"
    by (simp add: sendSudoAdvance_def)
  have c6: "\<not> inFlight st \<and> \<not> DRY_RUN cfg \<and>
    Promise_all2 (watermark_fails_first env) (finalized_read env)
      (getSecureUpTo (watermark_read env)) = Inr (finalized, currentUp) \<and>
    js_gt finalized currentUp \<and>
    sendSudoAdvance (registry cfg) (sudo_stream env) = (ls, Rejected e5) \<longrightarrow>
      tick cfg st env =
        ([ReadHeights, Log (TickLine finalized currentUp True),
          Log (Advancing currentUp finalized), SudoAdvance finalized] @ map Log ls @
         [AdvanceSettled False, Log (LoopError e5), Sleep 1000, SleepInterval],
         Some (st\<lparr>inFlight := False, stop := stop st \<or> sigint env\<rparr>))"
    by (simp add: tick_def try_block_def Let_def)
  have c7: "\<not> inFlight st \<and> \<not> DRY_RUN cfg \<and>
    Promise_all2 (watermark_fails_first env) (finalized_read env)
      (getSecureUpTo (watermark_read env)) = Inr (finalized, currentUp) \<and>
    js_gt finalized currentUp \<and>
    sendSudoAdvance (registry cfg) (sudo_stream env) = (ls, Fulfilled) \<and>
    getSecureUpTo (after_read env) = Inl e6 \<longrightarrow>
      tick cfg st env =
        ([ReadHeights, Log (TickLine finalized currentUp True),
          Log (Advancing currentUp finalized), SudoAdvance finalized] @ map Log ls @
         [AdvanceSettled True, ReadAfter, Log (LoopError e6), Sleep 1000, SleepInterval],
         Some (st\<lparr>inFlight := False, stop := stop st \<or> sigint env\<rparr>))"
    by (simp add: tick_def try_block_def Let_def)
  have c8: "snd (main_loop cfg st envs) = Exited \<longrightarrow> stop st \<or> (\<exists>env\<in>set envs. sigint env)"
    using main_loop_exit [of cfg st envs] by blast
  have c9: "snd (main_loop cfg st envs) = Blocked \<longrightarrow>
      (\<exists>env\<in>set envs. \<exists>rs. sudo_stream env = Inr rs \<and> \<not> list_ex is_finalized rs)"
    using main_loop_blocked [of cfg st envs] by blast
  have c10: "\<not> stop st \<and>
    (\<forall>env\<in>set envs. \<not> sigint env \<and>
       (case sudo_stream env of Inl e \<Rightarrow> True | Inr rs \<Rightarrow> list_ex is_finalized rs)) \<longrightarrow>
      (\<exists>st'. snd (main_loop cfg st envs) = Running st')"
    using main_loop_running [of st envs cfg] by blast
  from c1 c2 c3 c4 c5 c6 c7 c8 c9 c10 show ?thesis by blast
qed

theorem tick_errors_never_fatal_witness:
  "finalized_read rpc_down_env = Inl (Error ''rpc down'') \<and>
   \<not> inFlight idle \<and>
   Promise_all2 (watermark_fails_first rpc_down_env) (finalized_read rpc_down_env)
     (getSecureUpTo (watermark_read rpc_down_env)) = Inl (Error ''rpc down'') \<and>
   tick live idle rpc_down_env =
     ([ReadHeights, Log (LoopError (Error ''rpc down'')), Sleep 1000, SleepInterval], Some idle) \<and>
   \<not> DRY_RUN live \<and>
   Promise_all2 (watermark_fails_first failing_env) (finalized_read failing_env)
     (getSecureUpTo (watermark_read failing_env)) = Inr (Finite 11, Finite 10) \<and>
   js_gt (Finite 11) (Finite 10) \<and>
   sendSudoAdvance (registry live) (sudo_stream failing_env) =
     ([Info ''[sudo] Ready'', Info ''[sudo] Finalized 0xbb'', Failure ''DispatchError: BadOrigin''],
      Rejected (Error ''sudo extrinsic failed'')) \<and>
   tick live idle failing_env =
     ([ReadHeights, Log (TickLine (Finite 11) (Finite 10) True),
       Log (Advancing (Finite 10) (Finite 11)), SudoAdvance (Finite 11),
       Log (Info ''[sudo] Ready''), Log (Info ''[sudo] Finalized 0xbb''),
       Log (Failure ''DispatchError: BadOrigin''), AdvanceSettled False,
       Log (LoopError (Error ''sudo extrinsic failed'')), Sleep 1000, SleepInterval],
      Some idle) \<and>
   snd (main_loop live idle [failing_env, failing_env\<lparr>sigint := True\<rparr>, failing_env]) = Exited \<and>
   (\<exists>env\<in>set [failing_env, failing_env\<lparr>sigint := True\<rparr>, failing_env]. sigint env) \<and>
   snd (main_loop live idle [failing_env, failing_env\<lparr>sudo_stream := Inr []\<rparr>]) = Blocked \<and>
   (\<exists>env\<in>set [failing_env, failing_env\<lparr>sudo_stream := Inr []\<rparr>].
      \<exists>rs. sudo_stream env = Inr rs \<and> \<not> list_ex is_finalized rs) \<and>
   \<not> stop idle \<and>
   snd (main_loop live idle [rpc_down_env, failing_env, rpc_down_env]) = Running idle"
proof -
  have r: "finalized_read rpc_down_env = Inl (Error ''rpc down'')" "\<not> inFlight idle"
    "\<not> DRY_RUN live" "\<not> stop idle"
    by (simp_all add: rpc_down_env_def idle_def live_def)
  have p1: "Promise_all2 (watermark_fails_first rpc_down_env) (finalized_read rpc_down_env)
     (getSecureUpTo (watermark_read rpc_down_env)) = Inl (Error ''rpc down'')"
    by (simp add: advancer_eval rpc_down_env_def)
  have p2: "Promise_all2 (watermark_fails_first failing_env) (finalized_read failing_env)
     (getSecureUpTo (watermark_read failing_env)) = Inr (Finite 11, Finite 10)"
    by (simp add: advancer_eval)
  have sa: "sendSudoAdvance (registry live) (sudo_stream failing_env) =
     ([Info ''[sudo] Ready'', Info ''[sudo] Finalized 0xbb'', Failure ''DispatchError: BadOrigin''],
      Rejected (Error ''sudo extrinsic failed''))"
    by (simp add: advancer_eval)
  have s1: "idle\<lparr>inFlight := False, stop := stop idle \<or> sigint rpc_down_env\<rparr> = idle"
    "idle\<lparr>inFlight := False, stop := stop idle \<or> sigint failing_env\<rparr> = idle"
    by (simp_all add: idle_def rpc_down_env_def failing_env_def)
  have t1: "tick live idle rpc_down_env =
     ([ReadHeights, Log (LoopError (Error ''rpc down'')), Sleep 1000, SleepInterval], Some idle)"
    using r p1 s1
      tick_errors_never_fatal [where cfg = live and st = idle and env = rpc_down_env
        and ?e3.0 = "Error ''rpc down''"]
    by simp
  have t2: "tick live idle failing_env =
     ([ReadHeights, Log (TickLine (Finite 11) (Finite 10) True),
       Log (Advancing (Finite 10) (Finite 11)), SudoAdvance (Finite 11),
       Log (Info ''[sudo] Ready''), Log (Info ''[sudo] Finalized 0xbb''),
       Log (Failure ''DispatchError: BadOrigin''), AdvanceSettled False,
       Log (LoopError (Error ''sudo extrinsic failed'')), Sleep 1000, SleepInterval],
      Some idle)"
    using r p2 sa s1
      tick_errors_never_fatal [where cfg = live and st = idle and env = failing_env
        and finalized = "Finite 11" and currentUp = "Finite 10"
        and ls = "[Info ''[sudo] Ready'', Info ''[sudo] Finalized 0xbb'',
                   Failure ''DispatchError: BadOrigin'']"
        and ?e5.0 = "Error ''sudo extrinsic failed''"]
    by simp
  have e: "snd (main_loop live idle [failing_env, failing_env\<lparr>sigint := True\<rparr>, failing_env]) = Exited"
    by (simp add: advancer_eval)
  have b: "snd (main_loop live idle [failing_env, failing_env\<lparr>sudo_stream := Inr []\<rparr>]) = Blocked"
    by (simp add: advancer_eval)
  have x1: "\<exists>env\<in>set [failing_env, failing_env\<lparr>sigint := True\<rparr>, failing_env]. sigint env"
    by simp
  have x2: "\<exists>env\<in>set [failing_env, failing_env\<lparr>sudo_stream := Inr []\<rparr>].
      \<exists>rs. sudo_stream env = Inr rs \<and> \<not> list_ex is_finalized rs"
    by simp
  have g: "snd (main_loop live idle [rpc_down_env, failing_env, rpc_down_env]) = Running idle"
    using t1 t2 r by simp
  have j: "js_gt (Finite 11) (Finite 10)" by simp
  from r p1 p2 sa t1 t2 e b x1 x2 g j show ?thesis by blast
qed

text \<open>
  Claim C3, as stated, fails: on the samples 10, 10, 11, 11, 12 with the watermark starting
  at 10, the calls issued are not the single call targeting 12.
\<close>

theorem scenario_A_not_one_call:
  "calls_of (run_on_chain live idle 10 [10, 10, 11, 11, 12]) \<noteq> [Finite 12]"
  by (simp add: advancer_eval)

text \<open>
  Claim C3, amended: on the samples 10, 10, 11, 11, 12 with the watermark starting at 10,
  two advancement calls are issued over the run, one on each tick that reads a finalized
  height above the watermark: the first targets 11 (third tick), the second 12 (fifth
  tick).
\<close>

theorem scenario_A_two_calls:
  "calls_of (run_on_chain live idle 10 [10, 10, 11, 11, 12]) = [Finite 11, Finite 12]"
  by (simp add: advancer_eval)


section \<open>Properties of signAndSendSecure\<close>

lemma outcome_settled_step: "outcome w \<noteq> Pending \<Longrightarrow> outcome (on_wait_event w ev) = outcome w"
  by (cases ev) (auto simp: on_upTo_def resolve_def reject_def split: sum.splits)

lemma outcome_settled_foldl:
  "outcome w \<noteq> Pending \<Longrightarrow> outcome (foldl on_wait_event w evs) = outcome w"
  by (induction evs arbitrary: w) (simp_all add: outcome_settled_step)

lemma notifications_outcome:
  "subscription w = Established \<Longrightarrow> outcome w = Pending \<Longrightarrow>
   (outcome (foldl on_wait_event w (map Notification ups)) = Fulfilled) =
     list_ex (satisfies (targetBlock w)) ups"
proof (induction ups arbitrary: w)
  case Nil
  then show ?case by simp
next
  case (Cons upTo ups)
  show ?case
  proof (cases "satisfies (targetBlock w) upTo")
    case True
    with Cons.prems have "outcome (on_upTo w upTo) = Fulfilled"
      by (auto simp: on_upTo_def satisfies_def resolve_def split: sum.splits)
    then have "outcome (foldl on_wait_event (on_upTo w upTo) (map Notification ups)) = Fulfilled"
      using outcome_settled_foldl [of "on_upTo w upTo"] by simp
    with True show ?thesis by simp
  next
    case False
    with Cons.prems have "subscription (on_upTo w upTo) = Established"
      "outcome (on_upTo w upTo) = Pending" "targetBlock (on_upTo w upTo) = targetBlock w"
      by (auto simp: on_upTo_def satisfies_def split: sum.splits)
    with Cons.IH [of "on_upTo w upTo"] False show ?thesis by simp
  qed
qed

lemma subscribed_run_outcome:
  "(outcome (wait_run n (Subscribed # map Notification ups)) = Fulfilled) = list_ex (satisfies n) ups"
  using notifications_outcome [of "(waitForSecureUpTo n)\<lparr>subscription := Established\<rparr>" ups]
  by (simp add: wait_run_def waitForSecureUpTo_def)

lemma on_status_calls: "calls (on_status (Some cb) t r) = calls t @ [as_secure r]"
  by (simp add: on_status_def split: option.splits tx_status.splits)

lemma on_status_length: "length (handlers (on_status cb t r)) = Suc (length (handlers t))"
  by (cases cb) (simp_all add: on_status_def split: option.splits tx_status.splits)

lemma statuses_run:
  "calls (foldl (tracker_step (Some cb)) t (map StatusUpdate rs)) = calls t @ map as_secure rs \<and>
   length (handlers (foldl (tracker_step (Some cb)) t (map StatusUpdate rs))) = length (handlers t) + length rs"
  by (induction rs arbitrary: t) (simp_all add: on_status_calls on_status_length)

lemma on_status_finalized:
  "status fin = IsFinalized h \<Longrightarrow> \<not> failed fin \<Longrightarrow> cb (as_secure fin) = None \<Longrightarrow>
   on_status (Some cb) t fin =
     t\<lparr>calls := calls t @ [as_secure fin], handlers := handlers t @ [AwaitHeader fin],
       header_requests := header_requests t @ [h]\<rparr>"
  by (simp add: on_status_def)

lemma on_status_throws:
  "cb (as_secure fin) = Some e \<Longrightarrow>
   on_status (Some cb) t fin =
     t\<lparr>calls := calls t @ [as_secure fin], handlers := handlers t @ [HandlerRejected e]\<rparr>"
  by (simp add: on_status_def)

lemma settled_ignores_header:
  "k < length (handlers t) \<Longrightarrow> settled (handlers t ! k) \<Longrightarrow> on_header t k reply = t"
  by (auto simp: on_header_def split: handler.splits)

lemma settled_ignores_wait:
  "k < length (handlers t) \<Longrightarrow> settled (handlers t ! k) \<Longrightarrow>
   foldl (tracker_step cb) t (map (WaitEvent k) wevs) = t"
  by (induction wevs) (auto simp: on_wait_def split: handler.splits)

lemma on_wait_length: "length (handlers (on_wait cb t k ev)) = length (handlers t)"
  by (cases cb) (auto simp: on_wait_def Let_def split: handler.splits promise_state.splits option.splits)

lemma wait_events_run:
  assumes "k < length (handlers t)" and "handlers t ! k = AwaitSecure r n w"
    and "outcome w = Pending"
  shows "calls (foldl (tracker_step (Some cb)) t (map (WaitEvent k) wevs)) =
         calls t @ (if outcome (foldl on_wait_event w wevs) = Fulfilled then [synthetic r n] else [])"
  using assms
proof (induction wevs arbitrary: t w)
  case Nil
  then show ?case by simp
next
  case (Cons ev wevs)
  let ?w' = "on_wait_event w ev"
  let ?t' = "on_wait (Some cb) t k ev"
  have l: "k < length (handlers ?t')" using Cons.prems(1) by (simp add: on_wait_length)
  show ?case
  proof (cases "outcome ?w'")
    case Pending
    with Cons.prems(1,2) have "handlers ?t' ! k = AwaitSecure r n ?w'" "calls ?t' = calls t"
      by (simp_all add: on_wait_def Let_def)
    from Cons.IH [OF l this(1) Pending] this(2) show ?thesis by simp
  next
    case Fulfilled
    with Cons.prems(1,2) have c: "calls ?t' = calls t @ [synthetic r n]"
      and h: "settled (handlers ?t' ! k)"
      by (simp_all add: on_wait_def Let_def split: option.splits)
    have "outcome (foldl on_wait_event ?w' wevs) = Fulfilled"
      using outcome_settled_foldl [of ?w' wevs] Fulfilled by simp
    with settled_ignores_wait [OF l h, of "Some cb" wevs] c show ?thesis by simp
  next
    case (Rejected e)
    with Cons.prems(1,2) have c: "calls ?t' = calls t"
      and h: "settled (handlers ?t' ! k)"
      by (simp_all add: on_wait_def Let_def)
    have "outcome (foldl on_wait_event ?w' wevs) = Rejected e"
      using outcome_settled_foldl [of ?w' wevs] Rejected by simp
    with settled_ignores_wait [OF l h, of "Some cb" wevs] c show ?thesis by simp
  qed
qed

lemma lifecycle_calls:
  assumes "status fin = IsFinalized h" and "\<not> failed fin" and "cb (as_secure fin) = None"
  shows "calls (tracker_run (Some cb) (lifecycle rs fin (Inr n) wevs)) =
         map as_secure rs @ [as_secure fin] @
         (if outcome (wait_run n wevs) = Fulfilled then [synthetic fin n] else [])"
proof -
  define t1 where "t1 = foldl (tracker_step (Some cb)) signAndSendSecure (map StatusUpdate rs)"
  define k where "k = length (handlers t1)"
  have c1: "calls t1 = map as_secure rs" and l1: "length rs = k"
    unfolding t1_def k_def using statuses_run [of cb signAndSendSecure rs]
    by (simp_all add: signAndSendSecure_def)
  define t2 where "t2 = on_status (Some cb) t1 fin"
  have t2: "t2 = t1\<lparr>calls := calls t1 @ [as_secure fin], handlers := handlers t1 @ [AwaitHeader fin],
       header_requests := header_requests t1 @ [h]\<rparr>"
    unfolding t2_def using assms(1-3) by (rule on_status_finalized)
  define t3 where "t3 = on_header t2 k (Inr n)"
  have t3: "handlers t3 = handlers t1 @ [AwaitSecure fin n (waitForSecureUpTo n)]"
    and c3: "calls t3 = calls t2"
    unfolding t3_def t2 k_def by (simp_all add: on_header_def)
  have k3: "k < length (handlers t3)" and h3: "handlers t3 ! k = AwaitSecure fin n (waitForSecureUpTo n)"
    unfolding t3 k_def by simp_all
  have "calls (foldl (tracker_step (Some cb)) t3 (map (WaitEvent k) wevs)) =
        calls t3 @ (if outcome (foldl on_wait_event (waitForSecureUpTo n) wevs) = Fulfilled
                    then [synthetic fin n] else [])"
    by (rule wait_events_run [OF k3 h3]) (simp add: waitForSecureUpTo_def)
  moreover have "tracker_run (Some cb) (lifecycle rs fin (Inr n) wevs) =
      foldl (tracker_step (Some cb)) t3 (map (WaitEvent k) wevs)"
    unfolding tracker_run_def lifecycle_def l1 t3_def t2_def t1_def by simp
  moreover have "calls t3 = map as_secure rs @ [as_secure fin]"
    using c3 c1 by (simp add: t2)
  ultimately show ?thesis by (simp add: wait_run_def)
qed

lemma lifecycle_header_fails:
  assumes "status fin = IsFinalized h" and "\<not> failed fin" and "cb (as_secure fin) = None"
  shows "calls (tracker_run (Some cb) (lifecycle rs fin (Inl e) wevs)) =
         map as_secure rs @ [as_secure fin]"
proof -
  define t1 where "t1 = foldl (tracker_step (Some cb)) signAndSendSecure (map StatusUpdate rs)"
  define k where "k = length (handlers t1)"
  have c1: "calls t1 = map as_secure rs" and l1: "length rs = k"
    unfolding t1_def k_def using statuses_run [of cb signAndSendSecure rs]
    by (simp_all add: signAndSendSecure_def)
  define t2 where "t2 = on_status (Some cb) t1 fin"
  have t2: "t2 = t1\<lparr>calls := calls t1 @ [as_secure fin], handlers := handlers t1 @ [AwaitHeader fin],
       header_requests := header_requests t1 @ [h]\<rparr>"
    unfolding t2_def using assms(1-3) by (rule on_status_finalized)
  define t3 where "t3 = on_header t2 k (Inl e)"
  have t3: "handlers t3 = handlers t1 @ [HandlerRejected e]"
    and c3: "calls t3 = calls t2"
    unfolding t3_def t2 k_def by (simp_all add: on_header_def)
  have k3: "k < length (handlers t3)" and h3: "settled (handlers t3 ! k)"
    unfolding t3 k_def by simp_all
  have "tracker_run (Some cb) (lifecycle rs fin (Inl e) wevs) =
      foldl (tracker_step (Some cb)) t3 (map (WaitEvent k) wevs)"
    unfolding tracker_run_def lifecycle_def l1 t3_def t2_def t1_def by simp
  with settled_ignores_wait [OF k3 h3, of "Some cb" wevs] c3 c1 show ?thesis
    by (simp add: t2)
qed

lemma lifecycle_callback_throws:
  assumes "cb (as_secure fin) = Some e"
  shows "calls (tracker_run (Some cb) (lifecycle rs fin header wevs)) =
         map as_secure rs @ [as_secure fin]"
proof -
  define t1 where "t1 = foldl (tracker_step (Some cb)) signAndSendSecure (map StatusUpdate rs)"
  define k where "k = length (handlers t1)"
  have c1: "calls t1 = map as_secure rs" and l1: "length rs = k"
    unfolding t1_def k_def using statuses_run [of cb signAndSendSecure rs]
    by (simp_all add: signAndSendSecure_def)
  define t2 where "t2 = on_status (Some cb) t1 fin"
  have t2: "t2 = t1\<lparr>calls := calls t1 @ [as_secure fin], handlers := handlers t1 @ [HandlerRejected e]\<rparr>"
    unfolding t2_def using assms by (rule on_status_throws)
  have k2: "k < length (handlers t2)" and h2: "settled (handlers t2 ! k)"
    unfolding t2 k_def by simp_all
  have "tracker_run (Some cb) (lifecycle rs fin header wevs) =
      foldl (tracker_step (Some cb)) (on_header t2 k header) (map (WaitEvent k) wevs)"
    unfolding tracker_run_def lifecycle_def l1 t2_def t1_def by simp
  with settled_ignores_header [OF k2 h2, of header] settled_ignores_wait [OF k2 h2, of "Some cb" wevs] c1
  show ?thesis by (simp add: t2)
qed

lemma secure_calls_append: "secure_calls (xs @ ys) = secure_calls xs @ secure_calls ys"
  by (simp add: secure_calls_def)

lemma secure_calls_as_secure: "secure_calls (map as_secure rs) = []"
  by (induction rs) (simp_all add: secure_calls_def as_secure_def)

lemma secure_calls_results: "secure_calls (map as_secure rs @ [as_secure fin]) = []"
  using secure_calls_as_secure [of "rs @ [fin]"] by simp

text \<open>
  Claim C1, as stated, fails: for Ready, InBlock and a finalized result without a failure
  event, with the header read answering block 100, the callback sequence ends with the
  finalized result and holds no synthetic call when the watermark only reaches 99, and
  likewise when the header read fails.
\<close>

theorem finalized_without_secure:
  "is_finalized finalized_ok \<and> \<not> failed finalized_ok \<and>
   calls (tracker_run (Some quiet_cb)
      (lifecycle [ready, in_block] finalized_ok (Inr (Finite 100))
         [Subscribed, Notification (codec 99)])) =
     [as_secure ready, as_secure in_block, as_secure finalized_ok] \<and>
   secure_calls (calls (tracker_run (Some quiet_cb)
      (lifecycle [ready, in_block] finalized_ok (Inr (Finite 100))
         [Subscribed, Notification (codec 99)]))) = [] \<and>
   calls (tracker_run (Some quiet_cb)
      (lifecycle [ready, in_block] finalized_ok (Inl (Error ''rpc down''))
         [Subscribed, Notification (codec 105)])) =
     [as_secure ready, as_secure in_block, as_secure finalized_ok]"
  by (simp add: is_finalized_def finalized_ok_def failed_def tracker_run_def lifecycle_def
      signAndSendSecure_def on_status_def on_header_def on_wait_def on_upTo_def n_of_def
      codec_def quiet_cb_def ready_def in_block_def waitForSecureUpTo_def secure_calls_def
      as_secure_def)

text \<open>
  Claim C1, amended: take any earlier status updates, then a finalized result without a
  failure event on which the callback returns normally, and let the header read of its
  block answer \<open>includedAt\<close>. Then the callback has been called with every result in order,
  and after them with the synthetic result exactly when the wait for \<open>includedAt\<close> has been
  fulfilled: that call is then the only one with \<^verbatim>\<open>isSecureFinalized\<close>, it is the last call,
  and its \<^verbatim>\<open>secureFinalizedAt\<close> is \<open>includedAt\<close>; as long as the wait is not fulfilled there
  is no synthetic call. With the subscription established, the wait is fulfilled exactly
  when one of the delivered watermark values satisfies \<open>includedAt\<close>. When the header read
  fails or the callback throws on the finalized result, the calls are the results alone.
\<close>

theorem secure_finalized_last:
  assumes "status fin = IsFinalized h" and "\<not> failed fin"
  shows
   "(cb (as_secure fin) = None \<and> outcome (wait_run includedAt wevs) = Fulfilled \<longrightarrow>
       calls (tracker_run (Some cb) (lifecycle rs fin (Inr includedAt) wevs)) =
         map as_secure rs @ [as_secure fin] @ [synthetic fin includedAt] \<and>
       secure_calls (calls (tracker_run (Some cb) (lifecycle rs fin (Inr includedAt) wevs))) =
         [synthetic fin includedAt] \<and>
       last (calls (tracker_run (Some cb) (lifecycle rs fin (Inr includedAt) wevs))) =
         synthetic fin includedAt \<and>
       secureFinalizedAt (last (calls (tracker_run (Some cb)
         (lifecycle rs fin (Inr includedAt) wevs)))) = Some includedAt) \<and>
    (cb (as_secure fin) = None \<and> outcome (wait_run includedAt wevs) \<noteq> Fulfilled \<longrightarrow>
       calls (tracker_run (Some cb) (lifecycle rs fin (Inr includedAt) wevs)) =
         map as_secure rs @ [as_secure fin] \<and>
       secure_calls (calls (tracker_run (Some cb) (lifecycle rs fin (Inr includedAt) wevs))) = []) \<and>
    (outcome (wait_run includedAt (Subscribed # map Notification ups)) = Fulfilled) =
       list_ex (satisfies includedAt) ups \<and>
    (cb (as_secure fin) = None \<longrightarrow>
       calls (tracker_run (Some cb) (lifecycle rs fin (Inl e) wevs)) =
         map as_secure rs @ [as_secure fin]) \<and>
    (cb (as_secure fin) = Some e \<longrightarrow>
       calls (tracker_run (Some cb) (lifecycle rs fin header wevs)) =
         map as_secure rs @ [as_secure fin])"
proof -
  have a: "cb (as_secure fin) = None \<Longrightarrow>
      calls (tracker_run (Some cb) (lifecycle rs fin (Inr includedAt) wevs)) =
         map as_secure rs @ [as_secure fin] @
         (if outcome (wait_run includedAt wevs) = Fulfilled then [synthetic fin includedAt] else [])"
    using assms by (rule lifecycle_calls)
  have s: "secure_calls (map as_secure rs @ [as_secure fin] @ [synthetic fin includedAt]) =
           [synthetic fin includedAt]"
    using secure_calls_results [of rs fin]
    by (simp add: secure_calls_append) (simp add: secure_calls_def synthetic_def as_secure_def)
  have c1: "cb (as_secure fin) = None \<and> outcome (wait_run includedAt wevs) = Fulfilled \<longrightarrow>
       calls (tracker_run (Some cb) (lifecycle rs fin (Inr includedAt) wevs)) =
         map as_secure rs @ [as_secure fin] @ [synthetic fin includedAt] \<and>
       secure_calls (calls (tracker_run (Some cb) (lifecycle rs fin (Inr includedAt) wevs))) =
         [synthetic fin includedAt] \<and>
       last (calls (tracker_run (Some cb) (lifecycle rs fin (Inr includedAt) wevs))) =
         synthetic fin includedAt \<and>
       secureFinalizedAt (last (calls (tracker_run (Some cb)
         (lifecycle rs fin (Inr includedAt) wevs)))) = Some includedAt"
    using a s by (simp add: synthetic_def)
  have c2: "cb (as_secure fin) = None \<and> outcome (wait_run includedAt wevs) \<noteq> Fulfilled \<longrightarrow>
       calls (tracker_run (Some cb) (lifecycle rs fin (Inr includedAt) wevs)) =
         map as_secure rs @ [as_secure fin] \<and>
       secure_calls (calls (tracker_run (Some cb) (lifecycle rs fin (Inr includedAt) wevs))) = []"
    using a secure_calls_results [of rs fin] by simp
  have c3: "(outcome (wait_run includedAt (Subscribed # map Notification ups)) = Fulfilled) =
       list_ex (satisfies includedAt) ups"
    by (rule subscribed_run_outcome)
  have c4: "cb (as_secure fin) = None \<longrightarrow>
       calls (tracker_run (Some cb) (lifecycle rs fin (Inl e) wevs)) =
         map as_secure rs @ [as_secure fin]"
    using lifecycle_header_fails [OF assms] by blast
  have c5: "cb (as_secure fin) = Some e \<longrightarrow>
       calls (tracker_run (Some cb) (lifecycle rs fin header wevs)) =
         map as_secure rs @ [as_secure fin]"
    using lifecycle_callback_throws by blast
  from c1 c2 c3 c4 c5 show ?thesis by blast
qed

theorem secure_finalized_last_witness:
  "status finalized_ok = IsFinalized ''0xaa'' \<and> \<not> failed finalized_ok \<and>
   quiet_cb (as_secure finalized_ok) = None \<and>
   list_ex (satisfies (Finite 100)) [codec 99, codec 105] \<and>
   outcome (wait_run (Finite 100) (Subscribed # map Notification [codec 99, codec 105])) = Fulfilled \<and>
   calls (tracker_run (Some quiet_cb)
            (lifecycle [ready, in_block] finalized_ok (Inr (Finite 100))
               (Subscribed # map Notification [codec 99, codec 105]))) =
     map as_secure [ready, in_block] @ [as_secure finalized_ok] @
     [synthetic finalized_ok (Finite 100)] \<and>
   secure_calls (calls (tracker_run (Some quiet_cb)
            (lifecycle [ready, in_block] finalized_ok (Inr (Finite 100))
               (Subscribed # map Notification [codec 99, codec 105])))) =
     [synthetic finalized_ok (Finite 100)] \<and>
   last (calls (tracker_run (Some quiet_cb)
            (lifecycle [ready, in_block] finalized_ok (Inr (Finite 100))
               (Subscribed # map Notification [codec 99, codec 105])))) =
     synthetic finalized_ok (Finite 100) \<and>
   secureFinalizedAt (last (calls (tracker_run (Some quiet_cb)
            (lifecycle [ready, in_block] finalized_ok (Inr (Finite 100))
               (Subscribed # map Notification [codec 99, codec 105]))))) = Some (Finite 100) \<and>
   outcome (wait_run (Finite 100) (Subscribed # map Notification [codec 99])) \<noteq> Fulfilled \<and>
   calls (tracker_run (Some quiet_cb)
            (lifecycle [ready, in_block] finalized_ok (Inr (Finite 100))
               (Subscribed # map Notification [codec 99]))) =
     map as_secure [ready, in_block] @ [as_secure finalized_ok] \<and>
   throwing_cb (as_secure finalized_ok) = Some (Error ''callback'') \<and>
   calls (tracker_run (Some throwing_cb)
            (lifecycle [ready, in_block] finalized_ok (Inr (Finite 100))
               (Subscribed # map Notification [codec 105]))) =
     map as_secure [ready, in_block] @ [as_secure finalized_ok]"
proof -
  have h1: "status finalized_ok = IsFinalized ''0xaa''" by (simp add: finalized_ok_def)
  have h2: "\<not> failed finalized_ok" by (simp add: finalized_ok_def failed_def)
  have h3: "quiet_cb (as_secure finalized_ok) = None" by (simp add: quiet_cb_def)
  have h4: "list_ex (satisfies (Finite 100)) [codec 99, codec 105]"
    "\<not> list_ex (satisfies (Finite 100)) [codec 99]"
    by (simp_all add: satisfies_def n_of_def codec_def)
  have h5: "throwing_cb (as_secure finalized_ok) = Some (Error ''callback'')"
    by (simp add: throwing_cb_def)
  note t1 = secure_finalized_last [OF h1 h2, where cb = quiet_cb and includedAt = "Finite 100"
      and ups = "[codec 99, codec 105]" and rs = "[ready, in_block]"
      and wevs = "Subscribed # map Notification [codec 99, codec 105]"]
  note t2 = secure_finalized_last [OF h1 h2, where cb = quiet_cb and includedAt = "Finite 100"
      and ups = "[codec 99]" and rs = "[ready, in_block]"
      and wevs = "Subscribed # map Notification [codec 99]"]
  note t3 = secure_finalized_last [OF h1 h2, where cb = throwing_cb and rs = "[ready, in_block]"
      and e = "Error ''callback''" and header = "Inr (Finite 100)"
      and wevs = "Subscribed # map Notification [codec 105]"]
  have f: "outcome (wait_run (Finite 100) (Subscribed # map Notification [codec 99, codec 105])) = Fulfilled"
    using t1 h4 by blast
  have g: "outcome (wait_run (Finite 100) (Subscribed # map Notification [codec 99])) \<noteq> Fulfilled"
    using t2 h4 by blast
  from h1 h2 h3 h4 h5 f g t1 t2 t3 show ?thesis by blast
qed

lemma settled_nth: "list_all settled hs \<Longrightarrow> k < length hs \<Longrightarrow> settled (hs ! k)"
  by (simp add: list_all_length)

lemma on_header_settled: "list_all settled (handlers t) \<Longrightarrow> on_header t k reply = t"
  using settled_nth [of "handlers t" k]
  by (auto simp: on_header_def split: handler.splits)

lemma on_wait_settled: "list_all settled (handlers t) \<Longrightarrow> on_wait cb t k ev = t"
  using settled_nth [of "handlers t" k]
  by (auto simp: on_wait_def split: handler.splits)

lemma on_status_failed:
  assumes "is_finalized r \<longrightarrow> failed r" and "list_all settled (handlers t)"
  shows "list_all settled (handlers (on_status cb t r)) \<and>
         secure_calls (calls (on_status cb t r)) = secure_calls (calls t) \<and>
         wait_calls (on_status cb t r) = wait_calls t \<and>
         header_requests (on_status cb t r) = header_requests t"
  using assms
  by (cases cb)
    (auto simp: on_status_def is_finalized_def secure_calls_def as_secure_def
      split: option.splits tx_status.splits)

lemma failed_run:
  assumes "\<forall>r. StatusUpdate r \<in> set evs \<longrightarrow> is_finalized r \<longrightarrow> failed r"
    and "list_all settled (handlers t)"
  shows "list_all settled (handlers (foldl (tracker_step cb) t evs)) \<and>
         secure_calls (calls (foldl (tracker_step cb) t evs)) = secure_calls (calls t) \<and>
         wait_calls (foldl (tracker_step cb) t evs) = wait_calls t \<and>
         header_requests (foldl (tracker_step cb) t evs) = header_requests t"
  using assms
proof (induction evs arbitrary: t)
  case Nil
  then show ?case by simp
next
  case (Cons ev evs)
  have rest: "\<forall>r. StatusUpdate r \<in> set evs \<longrightarrow> is_finalized r \<longrightarrow> failed r"
    using Cons.prems(1) by simp
  show ?case
  proof (cases ev)
    case (StatusUpdate r)
    with Cons.prems(1) have "is_finalized r \<longrightarrow> failed r" by simp
    from on_status_failed [OF this Cons.prems(2), of cb] Cons.IH [OF rest, of "on_status cb t r"]
    show ?thesis using StatusUpdate by simp
  next
    case (HeaderReply k reply)
    with Cons.IH [OF rest Cons.prems(2)] on_header_settled [OF Cons.prems(2)]
    show ?thesis by simp
  next
    case (WaitEvent k wev)
    with Cons.IH [OF rest Cons.prems(2)] on_wait_settled [OF Cons.prems(2)]
    show ?thesis by simp
  qed
qed

lemma dispatch_error_text_module:
  "dispatch_error_text findMetaError (Some (ModuleError m)) = decoded_text (findMetaError m)"
  by (simp add: dispatch_error_text_def decoded_text_def Let_def)

text \<open>
  Claim C2, amended: if every finalized result delivered carries the failure event, then
  whatever else happens \<^verbatim>\<open>signAndSendSecure\<close> never makes the synthetic call, never calls
  \<^verbatim>\<open>waitForSecureUpTo\<close> and never asks for a header; it hands the finalized result to the
  callback as it is. The test script, on such a result, prints the dispatch error,
  unsubscribes, disconnects and exits with code 1 without waiting; the printed error is
  the decoded \<^verbatim>\<open>section.name - docs\<close> when the dispatch error is a module error, and the
  error's own text otherwise.
\<close>

theorem failed_tx_never_secure:
  "((\<forall>r. StatusUpdate r \<in> set evs \<longrightarrow> is_finalized r \<longrightarrow> failed r) \<longrightarrow>
      secure_calls (calls (tracker_run cb evs)) = [] \<and>
      wait_calls (tracker_run cb evs) = [] \<and>
      header_requests (tracker_run cb evs) = []) \<and>
   (status r = IsFinalized h \<and> failed r \<longrightarrow>
      tx_test_callback findMetaError env r =
        [Out (Line (''Status of transfer: Finalized at '' @ h)),
         Out (ErrorLine (dispatch_error_text findMetaError (dispatchError r))),
         CallUnsub, Disconnect, Exit 1] \<and>
      (dispatchError r = Some (ModuleError m) \<longrightarrow>
         dispatch_error_text findMetaError (dispatchError r) = decoded_text (findMetaError m)) \<and>
      (dispatchError r = Some (OtherDispatchError s) \<longrightarrow>
         dispatch_error_text findMetaError (dispatchError r) = ''DispatchError: '' @ s))"
proof -
  have "list_all settled (handlers signAndSendSecure)"
    by (simp add: signAndSendSecure_def)
  from failed_run [OF _ this, of evs cb]
  have "(\<forall>r. StatusUpdate r \<in> set evs \<longrightarrow> is_finalized r \<longrightarrow> failed r) \<longrightarrow>
      secure_calls (calls (tracker_run cb evs)) = [] \<and>
      wait_calls (tracker_run cb evs) = [] \<and>
      header_requests (tracker_run cb evs) = []"
    by (simp add: tracker_run_def signAndSendSecure_def secure_calls_def)
  then show ?thesis
    by (simp add: tx_test_callback_def dispatch_error_text_module)
      (simp add: dispatch_error_text_def)
qed

theorem failed_tx_never_secure_witness:
  "\<not> is_finalized ready \<and> is_finalized module_failure \<and>
   calls (tracker_run (Some quiet_cb)
      [StatusUpdate ready, StatusUpdate module_failure, HeaderReply 1 (Inr (Finite 100)),
       WaitEvent 1 Subscribed, WaitEvent 1 (Notification (codec 105))]) =
     [as_secure ready, as_secure module_failure] \<and>
   secure_calls (calls (tracker_run (Some quiet_cb)
      [StatusUpdate ready, StatusUpdate module_failure, HeaderReply 1 (Inr (Finite 100)),
       WaitEvent 1 Subscribed, WaitEvent 1 (Notification (codec 105))])) = [] \<and>
   wait_calls (tracker_run (Some quiet_cb)
      [StatusUpdate ready, StatusUpdate module_failure, HeaderReply 1 (Inr (Finite 100)),
       WaitEvent 1 Subscribed, WaitEvent 1 (Notification (codec 105))]) = [] \<and>
   status module_failure = IsFinalized ''0xbb'' \<and> failed module_failure \<and>
   dispatchError module_failure = Some (ModuleError (5, 2)) \<and>
   tx_test_callback (\<lambda>m. low_balance) no_answers module_failure =
     [Out (Line ''Status of transfer: Finalized at 0xbb''),
      Out (ErrorLine ''DispatchError: balances.InsufficientBalance - Balance too low to send value.''),
      CallUnsub, Disconnect, Exit 1] \<and>
   status bad_origin = IsFinalized ''0xbb'' \<and> failed bad_origin \<and>
   dispatchError bad_origin = Some (OtherDispatchError ''BadOrigin'') \<and>
   dispatch_error_text (\<lambda>m. low_balance) (dispatchError bad_origin) = ''DispatchError: BadOrigin''"
proof -
  let ?evs = "[StatusUpdate ready, StatusUpdate module_failure, HeaderReply 1 (Inr (Finite 100)),
        WaitEvent 1 Subscribed, WaitEvent 1 (Notification (codec 105))]"
  have f: "failed module_failure" "failed bad_origin"
    by (simp_all add: module_failure_def bad_origin_def failed_def)
  have h: "\<forall>r. StatusUpdate r \<in> set ?evs \<longrightarrow> is_finalized r \<longrightarrow> failed r"
    using f by (auto simp: ready_def is_finalized_def)
  have c: "calls (tracker_run (Some quiet_cb) ?evs) = [as_secure ready, as_secure module_failure]"
    using f by (simp add: tracker_run_def signAndSendSecure_def on_status_def on_header_def
        on_wait_def quiet_cb_def ready_def module_failure_def bad_origin_def)
  have s: "status module_failure = IsFinalized ''0xbb''" "status bad_origin = IsFinalized ''0xbb''"
    "dispatchError module_failure = Some (ModuleError (5, 2))"
    "dispatchError bad_origin = Some (OtherDispatchError ''BadOrigin'')"
    by (simp_all add: module_failure_def bad_origin_def)
  have i: "\<not> is_finalized ready" "is_finalized module_failure"
    by (simp_all add: ready_def module_failure_def bad_origin_def is_finalized_def)
  show ?thesis
    using h c f s i
      failed_tx_never_secure [of ?evs "Some quiet_cb" module_failure "''0xbb''" "\<lambda>m. low_balance"
        no_answers "(5, 2)"]
      failed_tx_never_secure [of ?evs "Some quiet_cb" bad_origin "''0xbb''" "\<lambda>m. low_balance"
        no_answers _ "''BadOrigin''"]
    by (simp add: decoded_text_def low_balance_def)
qed

text \<open>
  Claim C2, as stated, fails in its last part: for a transfer that failed with a dispatch
  error that is not a module error, the script prints only the error's own text, nothing
  decoded from the registry, and \<^verbatim>\<open>signAndSendSecure\<close> only passes the finalized result on.
\<close>

theorem failure_not_always_decoded:
  "failed bad_origin \<and>
   tx_test_callback (\<lambda>m. low_balance) no_answers bad_origin =
     [Out (Line ''Status of transfer: Finalized at 0xbb''),
      Out (ErrorLine ''DispatchError: BadOrigin''), CallUnsub, Disconnect, Exit 1] \<and>
   Out (ErrorLine (decoded_text low_balance)) \<notin>
     set (tx_test_callback (\<lambda>m. low_balance) no_answers bad_origin) \<and>
   calls (tracker_run (Some quiet_cb) [StatusUpdate bad_origin]) = [as_secure bad_origin]"
  by (simp add: bad_origin_def failed_def tx_test_callback_def dispatch_error_text_def
      decoded_text_def low_balance_def tracker_run_def signAndSendSecure_def on_status_def
      quiet_cb_def)


section \<open>Properties of installSignAndSendSecure\<close>

text \<open>
  Claim C9: when the prototype of the instance already has a truthy \<^verbatim>\<open>signAndSendSecure\<close>,
  the call leaves the heap as it is; and installing twice, through the same instance or
  through another instance with the same prototype, gives the heap that installing once
  gives.
\<close>

theorem install_idempotent:
  "(truthy (get_prop (h (prototype i)) ''signAndSendSecure'') \<longrightarrow>
      installSignAndSendSecure h i = h) \<and>
   (prototype j = prototype i \<longrightarrow>
      installSignAndSendSecure (installSignAndSendSecure h i) j = installSignAndSendSecure h i)"
  by (simp add: installSignAndSendSecure_def get_prop_def Let_def)

theorem install_idempotent_witness:
  "truthy (get_prop (installSignAndSendSecure plain_heap probeTx (prototype probeTx)) ''signAndSendSecure'') \<and>
   installSignAndSendSecure (installSignAndSendSecure plain_heap probeTx) probeTx =
     installSignAndSendSecure plain_heap probeTx \<and>
   prototype transferTx = prototype probeTx \<and>
   installSignAndSendSecure (installSignAndSendSecure plain_heap probeTx) transferTx =
     installSignAndSendSecure plain_heap probeTx \<and>
   \<not> truthy (get_prop (plain_heap (prototype probeTx)) ''signAndSendSecure'')"
proof -
  have t: "truthy (get_prop (installSignAndSendSecure plain_heap probeTx (prototype probeTx)) ''signAndSendSecure'')"
    by (simp add: installSignAndSendSecure_def get_prop_def plain_heap_def probeTx_def Let_def)
  have p: "prototype transferTx = prototype probeTx"
    by (simp add: transferTx_def probeTx_def)
  have n: "\<not> truthy (get_prop (plain_heap (prototype probeTx)) ''signAndSendSecure'')"
    by (simp add: get_prop_def plain_heap_def)
  show ?thesis
    using t p n
      install_idempotent [of "installSignAndSendSecure plain_heap probeTx" probeTx probeTx]
      install_idempotent [of plain_heap probeTx transferTx]
    by simp
qed


end
